theory Spec2Isabelle
  imports Main "HOL-Library.Word" "HOL-Library.Monad_Syntax"
begin

section \<open>Data model\<close>

text \<open>
  The development embeds \<^verbatim>\<open>main/background_task.cc\<close> and \<^verbatim>\<open>main/application.cc\<close>.
  Objects become records, enumerations become datatypes, member functions become
  functions from the object's state to its new state. A closure handed to an executor is a
  value of a datatype with one constructor per lambda of the source. Every call on a
  collaborator whose code is elsewhere (display, LED, codec, opus wrappers, transport,
  logging) is recorded, in program order, in a trace of effects.
\<close>

type_synonym byte = "8 word"
type_synonym opus_frame = "byte list"   \<comment> \<open>\<^verbatim>\<open>std::vector<uint8_t>\<close>\<close>
type_synonym pcm_block = "16 word list" \<comment> \<open>\<^verbatim>\<open>std::vector<int16_t>\<close>\<close>

datatype DeviceState =
    kDeviceStateUnknown
  | kDeviceStateStarting
  | kDeviceStateConfiguring
  | kDeviceStateIdle
  | kDeviceStateConnecting
  | kDeviceStateListening
  | kDeviceStateSpeaking
  | kDeviceStateUpgrading
  | kDeviceStateFatalError
  | kDeviceStateInvalidState

fun STATE_STRINGS :: "DeviceState \<Rightarrow> string" where
  "STATE_STRINGS kDeviceStateUnknown = ''unknown''"
| "STATE_STRINGS kDeviceStateStarting = ''starting''"
| "STATE_STRINGS kDeviceStateConfiguring = ''configuring''"
| "STATE_STRINGS kDeviceStateIdle = ''idle''"
| "STATE_STRINGS kDeviceStateConnecting = ''connecting''"
| "STATE_STRINGS kDeviceStateListening = ''listening''"
| "STATE_STRINGS kDeviceStateSpeaking = ''speaking''"
| "STATE_STRINGS kDeviceStateUpgrading = ''upgrading''"
| "STATE_STRINGS kDeviceStateFatalError = ''fatal_error''"
| "STATE_STRINGS kDeviceStateInvalidState = ''invalid_state''"

datatype ListeningMode = kListeningModeAutoStop | kListeningModeManualStop | kListeningModeRealtime

datatype AbortReason = kAbortReasonNone | kAbortReasonWakeWordDetected


section \<open>The background executor (\<^verbatim>\<open>background_task.cc\<close>)\<close>

text \<open>
  \<open>bg_main_tasks\<close> is the member \<^verbatim>\<open>main_tasks_\<close> and \<open>active_tasks\<close> the member
  \<^verbatim>\<open>active_tasks_\<close>. The worker's position inside \<^verbatim>\<open>BackgroundTaskLoop\<close> is part of
  the state: \<open>bg_tasks\<close> is what is left of its local list \<^verbatim>\<open>tasks\<close>, and \<open>bg_current\<close> is
  the wrapped closure it has entered and whose locked epilogue (the decrement) it has not
  executed yet. \<open>bg_notes\<close> records the warning of \<^verbatim>\<open>Schedule\<close> and every
  \<^verbatim>\<open>condition_variable_.notify_all()\<close>. The queue holds the callback \<^verbatim>\<open>cb\<close>; what the
  wrapper of \<^verbatim>\<open>Schedule\<close> adds around it is \<open>worker_finish\<close>. The header that declares the
  counter is not part of the sources at hand; the counter is an integer without bounds here.
\<close>

datatype bg_note =
    BgWarnActive int   \<comment> \<open>\<^verbatim>\<open>ESP_LOGW(TAG, "active_tasks_ == %u", active_tasks_.load())\<close>\<close>
  | BgNotifyAll        \<comment> \<open>\<^verbatim>\<open>condition_variable_.notify_all()\<close>\<close>

record 'c BackgroundTask =
  bg_main_tasks :: "'c list"
  active_tasks :: int
  bg_tasks :: "'c list"
  bg_current :: "'c option"
  bg_notes :: "bg_note list"

definition BackgroundTask_new :: "'c BackgroundTask" where
  "BackgroundTask_new =
     \<lparr>bg_main_tasks = [], active_tasks = 0, bg_tasks = [], bg_current = None, bg_notes = []\<rparr>"

definition bg_note :: "bg_note \<Rightarrow> 'c BackgroundTask \<Rightarrow> 'c BackgroundTask" where
  "bg_note n bt = bt\<lparr>bg_notes := bg_notes bt @ [n]\<rparr>"

text \<open>\<^verbatim>\<open>BackgroundTask::Schedule\<close>, one critical section under \<^verbatim>\<open>mutex_\<close>.\<close>

definition BackgroundTask_Schedule :: "'c \<Rightarrow> 'c BackgroundTask \<Rightarrow> 'c BackgroundTask" where
  "BackgroundTask_Schedule cb bt =
     (let bt1 = (if 30 \<le> active_tasks bt then bg_note (BgWarnActive (active_tasks bt)) bt else bt);
          bt2 = bt1\<lparr>active_tasks := active_tasks bt1 + 1\<rparr>;
          bt3 = bt2\<lparr>bg_main_tasks := bg_main_tasks bt2 @ [cb]\<rparr>
      in bg_note BgNotifyAll bt3)"

text \<open>
  \<^verbatim>\<open>BackgroundTask::WaitForCompletion\<close>: \<^verbatim>\<open>condition_variable_.wait(lock, pred)\<close> returns
  with the lock held and \<^verbatim>\<open>pred()\<close> true, and in no other state. \<open>None\<close> is a caller that
  is still blocked.
\<close>

definition BackgroundTask_WaitForCompletion :: "'c BackgroundTask \<Rightarrow> 'c BackgroundTask option" where
  "BackgroundTask_WaitForCompletion bt =
     (if bg_main_tasks bt = [] \<and> active_tasks bt = 0 then Some bt else None)"

text \<open>
  \<^verbatim>\<open>BackgroundTaskLoop\<close> in three atomic steps. \<open>worker_take\<close> is the wait for a non-empty
  queue and the move of the whole queue into \<^verbatim>\<open>tasks\<close>; \<open>worker_start\<close> enters the next
  wrapped closure of the batch (the callback itself then runs outside the lock and is not
  part of the executor's state); \<open>worker_finish\<close> is the locked block after \<^verbatim>\<open>cb()\<close>.
  \<open>None\<close> means the step cannot be taken in that state.
\<close>

definition worker_take :: "'c BackgroundTask \<Rightarrow> 'c BackgroundTask option" where
  "worker_take bt =
     (if bg_tasks bt = [] \<and> bg_current bt = None \<and> bg_main_tasks bt \<noteq> []
      then Some (bt\<lparr>bg_tasks := bg_main_tasks bt, bg_main_tasks := []\<rparr>)
      else None)"

definition worker_start :: "'c BackgroundTask \<Rightarrow> ('c \<times> 'c BackgroundTask) option" where
  "worker_start bt =
     (case bg_current bt of
        Some _ \<Rightarrow> None
      | None \<Rightarrow> (case bg_tasks bt of
                   [] \<Rightarrow> None
                 | cb # rest \<Rightarrow> Some (cb, bt\<lparr>bg_tasks := rest, bg_current := Some cb\<rparr>)))"

definition worker_finish :: "'c BackgroundTask \<Rightarrow> 'c BackgroundTask option" where
  "worker_finish bt =
     (case bg_current bt of
        None \<Rightarrow> None
      | Some _ \<Rightarrow>
          (let bt1 = bt\<lparr>active_tasks := active_tasks bt - 1, bg_current := None\<rparr>
           in Some (if bg_main_tasks bt1 = [] \<and> active_tasks bt1 = 0
                    then bg_note BgNotifyAll bt1 else bt1)))"

text \<open>
  The executor as a transition system: any thread may schedule, the worker takes, starts
  and finishes.
\<close>

datatype 'c bg_action = ActSchedule 'c | ActTake | ActStart | ActFinish

fun bg_step :: "'c bg_action \<Rightarrow> 'c BackgroundTask \<Rightarrow> 'c BackgroundTask option" where
  "bg_step (ActSchedule cb) bt = Some (BackgroundTask_Schedule cb bt)"
| "bg_step ActTake bt = worker_take bt"
| "bg_step ActStart bt = map_option snd (worker_start bt)"
| "bg_step ActFinish bt = worker_finish bt"

fun bg_run :: "'c bg_action list \<Rightarrow> 'c BackgroundTask \<Rightarrow> 'c BackgroundTask option" where
  "bg_run [] bt = Some bt"
| "bg_run (a # as) bt = (case bg_step a bt of None \<Rightarrow> None | Some bt' \<Rightarrow> bg_run as bt')"

text \<open>The closures that have been submitted and whose epilogue has not run yet.\<close>

definition outstanding :: "'c BackgroundTask \<Rightarrow> 'c list" where
  "outstanding bt =
     (case bg_current bt of None \<Rightarrow> [] | Some cb \<Rightarrow> [cb]) @ bg_tasks bt @ bg_main_tasks bt"

definition notify_count :: "'c BackgroundTask \<Rightarrow> nat" where
  "notify_count bt = length (filter (\<lambda>n. n = BgNotifyAll) (bg_notes bt))"


section \<open>The application object (\<^verbatim>\<open>application.cc\<close>)\<close>

subsection \<open>Closures\<close>

text \<open>
  One constructor per lambda that the source passes to \<^verbatim>\<open>background_task_->Schedule\<close>:
  the decode closure of \<^verbatim>\<open>OutputAudio\<close>, which owns the compressed frame it captured, and
  the encode closure of \<^verbatim>\<open>InputAudio\<close> and of the audio processor's output callback.
\<close>

datatype background_closure =
    DecodeClosure opus_frame
  | EncodeClosure pcm_block

text \<open>
  One constructor per lambda that the source passes to \<^verbatim>\<open>Application::Schedule\<close>, named
  after the place that creates it. (The closure of \<^verbatim>\<open>CheckNewVersion\<close>, which ends in a
  restart of the device, is not part of the model.)
\<close>

datatype main_closure =
    ToggleChatStateTask
  | StartListeningTask
  | StopListeningTask
  | SendAudioTask opus_frame
  | VadStateChangeTask bool
  | WakeWordDetectedTask string
  | AudioChannelClosedTask
  | TtsStartTask
  | TtsStopTask

datatype event_bit = SCHEDULE_EVENT | AUDIO_INPUT_READY_EVENT | AUDIO_OUTPUT_READY_EVENT

subsection \<open>Effects on the collaborators\<close>

datatype log_level = LOGE | LOGW | LOGI

datatype log_arg = ArgS string | ArgI int | ArgN nat

datatype effect =
    EspLog log_level string "log_arg list"   \<comment> \<open>level, format string, arguments\<close>
  | LedOnStateChanged
  | DisplaySetStatus string
  | DisplaySetEmotion string
  | DisplaySetChatMessage string string
  | DisplayShowNotification string
  | CodecEnableOutput bool
  | CodecOutputData pcm_block
  | DecoderCreate int int
  | DecoderResetState
  | DecoderDecode opus_frame
  | EncoderResetState
  | EncoderEncode pcm_block
  | OutputResamplerConfigure int int
  | OutputResamplerProcess pcm_block
  | ProcessorStart
  | ProcessorStop
  | ProcessorInput pcm_block
  | WakeWordFeed pcm_block
  | WakeWordStartDetection
  | WakeWordEncodeData
  | ProtoOpenAudioChannel
  | ProtoCloseAudioChannel
  | ProtoSendAudio opus_frame
  | ProtoSendStartListening ListeningMode
  | ProtoSendStopListening
  | ProtoSendAbortSpeaking AbortReason
  | ProtoSendWakeWordDetected string
  | ProtoSendIotDescriptors string
  | ProtoSendIotStates string
  | BoardSetPowerSaveMode bool
  | ThingInvoke string
  | TaskDelay nat

subsection \<open>What the collaborators answer\<close>

text \<open>
  \<open>env\<close> holds what is fixed for a build and a board: the compile-time switch, the codec's
  rates, the opus and resampler kernels as functions of their input, the layout of the
  prompt header and the three embedded prompts. The declaration of \<^verbatim>\<open>BinaryProtocol3\<close>
  is not part of the sources at hand, so its layout is a parameter: \<open>p3_size_offset\<close> bytes
  precede the field \<^verbatim>\<open>payload_size\<close>, and \<open>p3_tail\<close> header bytes follow it before the
  payload.
\<close>

record env =
  esp32s3 :: bool                                 \<comment> \<open>\<^verbatim>\<open>CONFIG_IDF_TARGET_ESP32S3\<close>\<close>
  codec_output_sample_rate :: int
  codec_input_sample_rate :: int
  opus_decode :: "opus_frame \<Rightarrow> pcm_block option"  \<comment> \<open>\<open>None\<close>: \<^verbatim>\<open>Decode\<close> returns false\<close>
  opus_encode :: "pcm_block \<Rightarrow> opus_frame list"    \<comment> \<open>the packets handed to the handler\<close>
  output_resample :: "pcm_block \<Rightarrow> pcm_block"
  input_resample :: "pcm_block \<Rightarrow> pcm_block"
  p3_size_offset :: nat
  p3_tail :: nat
  p3_err_pin :: "byte list"
  p3_err_wificonfig :: "byte list"
  p3_err_reg :: "byte list"

text \<open>
  \<open>world\<close> holds what the collaborators would answer if asked now; the environment may
  change it at any time.
\<close>

record world =
  steady_now :: int                        \<comment> \<open>\<^verbatim>\<open>steady_clock::now()\<close>, in nanoseconds\<close>
  thing_states_json :: string              \<comment> \<open>\<^verbatim>\<open>thing_manager.GetStatesJson()\<close>\<close>
  thing_descriptors_json :: string
  open_audio_channel_result :: bool        \<comment> \<open>\<^verbatim>\<open>protocol_->OpenAudioChannel()\<close>\<close>
  audio_channel_opened :: bool             \<comment> \<open>\<^verbatim>\<open>protocol_->IsAudioChannelOpened()\<close>\<close>
  server_sample_rate :: int
  codec_input_data :: "pcm_block option"   \<comment> \<open>\<^verbatim>\<open>codec->InputData(data)\<close>; \<open>None\<close>: false\<close>
  processor_running :: bool
  detection_running :: bool
  wake_word_opus :: "opus_frame list"      \<comment> \<open>what \<^verbatim>\<open>GetWakeWordOpus\<close> yields, in order\<close>

subsection \<open>State\<close>

record app =
  device_state :: DeviceState
  keep_listening :: bool
  aborted :: bool
  voice_detected :: bool
  protocol_ready :: bool                   \<comment> \<open>\<^verbatim>\<open>protocol_\<close> is not null\<close>
  audio_decode_queue :: "opus_frame list"
  last_output_time :: int
  opus_decode_sample_rate :: int
  last_iot_states :: string
  main_tasks :: "main_closure list"
  event_bits :: "event_bit set"
  background_task :: "background_closure BackgroundTask"
  effects :: "effect list"
  world :: world

definition emit :: "effect \<Rightarrow> app \<Rightarrow> app" where
  "emit e s = s\<lparr>effects := effects s @ [e]\<rparr>"

text \<open>A call through \<^verbatim>\<open>protocol_\<close>; dereferencing the null pointer has no result.\<close>

definition proto :: "effect \<Rightarrow> app \<Rightarrow> app option" where
  "proto e s = (if protocol_ready s then Some (emit e s) else None)"

definition codec_pcm :: "app \<Rightarrow> pcm_block list" where
  "codec_pcm s = concat (map (\<lambda>e. case e of CodecOutputData pcm \<Rightarrow> [pcm] | _ \<Rightarrow> []) (effects s))"


subsection \<open>Scheduling and the background worker as the application sees it\<close>

text \<open>\<^verbatim>\<open>Application::Schedule\<close>.\<close>

definition Schedule :: "main_closure \<Rightarrow> app \<Rightarrow> app" where
  "Schedule callback s =
     s\<lparr>main_tasks := main_tasks s @ [callback], event_bits := insert SCHEDULE_EVENT (event_bits s)\<rparr>"

text \<open>\<^verbatim>\<open>background_task_->Schedule(...)\<close>.\<close>

definition background_Schedule :: "background_closure \<Rightarrow> app \<Rightarrow> app" where
  "background_Schedule cb s = s\<lparr>background_task := BackgroundTask_Schedule cb (background_task s)\<rparr>"

text \<open>
  The two background lambdas. The decode closure is lines 525-544 of \<^verbatim>\<open>OutputAudio\<close>: it
  reads the flag \<^verbatim>\<open>aborted_\<close> once, first thing, and returns if it is set
  (\<open>closure_enters\<close>); the rest (\<open>closure_body\<close>) decodes, resamples if the rates differ
  and writes to the codec. The encode closure has no such check; it hands every packet the
  encoder produces to \<^verbatim>\<open>Schedule\<close>, wrapped in the closure that sends it.
  \<open>run_background_closure\<close> is a closure executed without interruption.
\<close>

fun closure_enters :: "background_closure \<Rightarrow> app \<Rightarrow> bool" where
  "closure_enters (DecodeClosure opus) s = (\<not> aborted s)"
| "closure_enters (EncodeClosure data) s = True"

fun closure_body :: "env \<Rightarrow> background_closure \<Rightarrow> app \<Rightarrow> app" where
  "closure_body env (DecodeClosure opus) s =
     (let s1 = emit (DecoderDecode opus) s in
      case opus_decode env opus of
        None \<Rightarrow> s1
      | Some pcm \<Rightarrow>
          (if opus_decode_sample_rate s1 \<noteq> codec_output_sample_rate env
           then emit (CodecOutputData (output_resample env pcm)) (emit (OutputResamplerProcess pcm) s1)
           else emit (CodecOutputData pcm) s1))"
| "closure_body env (EncodeClosure data) s =
     foldl (\<lambda>s' opus. Schedule (SendAudioTask opus) s') (emit (EncoderEncode data) s) (opus_encode env data)"

definition run_background_closure :: "env \<Rightarrow> background_closure \<Rightarrow> app \<Rightarrow> app" where
  "run_background_closure env cb s = (if closure_enters cb s then closure_body env cb s else s)"

text \<open>
  One action of the worker thread. The worker runs beside the main loop, so a closure is
  not one action but two: the worker enters the next wrapped closure of its batch and the
  closure makes its check (a dropped frame ends the closure at once, epilogue included);
  later it executes the rest of the closure and the locked epilogue. With an empty batch
  it takes the queue. In any other state the worker waits and nothing changes.
\<close>

definition worker_step :: "env \<Rightarrow> app \<Rightarrow> app" where
  "worker_step env s =
     (case bg_current (background_task s) of
        Some cb \<Rightarrow>
          (let s1 = closure_body env cb s
           in case worker_finish (background_task s1) of
                Some bt2 \<Rightarrow> s1\<lparr>background_task := bt2\<rparr>
              | None \<Rightarrow> s1)
      | None \<Rightarrow>
          (case worker_start (background_task s) of
             Some (cb, bt1) \<Rightarrow>
               (if closure_enters cb s then s\<lparr>background_task := bt1\<rparr>
                else (case worker_finish bt1 of
                        Some bt2 \<Rightarrow> s\<lparr>background_task := bt2\<rparr>
                      | None \<Rightarrow> s\<lparr>background_task := bt1\<rparr>))
           | None \<Rightarrow>
               (case worker_take (background_task s) of
                  Some bt1 \<Rightarrow> s\<lparr>background_task := bt1\<rparr>
                | None \<Rightarrow> s)))"

definition worker_enabled :: "'c BackgroundTask \<Rightarrow> bool" where
  "worker_enabled bt \<longleftrightarrow> bg_current bt \<noteq> None \<or> worker_start bt \<noteq> None \<or> worker_take bt \<noteq> None"

text \<open>
  \<^verbatim>\<open>background_task_->WaitForCompletion()\<close> as the calling thread lives it: while the
  predicate is false the caller is blocked and only the worker moves. \<open>None\<close>: the predicate
  is false and the worker has nothing to do, so the caller never returns.
\<close>

function WaitForCompletion :: "env \<Rightarrow> app \<Rightarrow> app option" where
  "WaitForCompletion env s =
     (case BackgroundTask_WaitForCompletion (background_task s) of
        Some _ \<Rightarrow> Some s
      | None \<Rightarrow>
          (if worker_enabled (background_task s) then WaitForCompletion env (worker_step env s)
           else None))"
  by pat_completeness auto
termination
proof (relation "measure (\<lambda>(env, s). 3 * length (bg_main_tasks (background_task s))
                                      + 2 * length (bg_tasks (background_task s))
                                      + (case bg_current (background_task s) of None \<Rightarrow> 0 | Some _ \<Rightarrow> 1))")
  show "wf (measure (\<lambda>(env, s). 3 * length (bg_main_tasks (background_task s))
                                + 2 * length (bg_tasks (background_task s))
                                + (case bg_current (background_task s) of None \<Rightarrow> 0 | Some _ \<Rightarrow> 1)))"
    by simp
next
  fix env :: env and s :: app
  assume en: "worker_enabled (background_task s)"
  have sched: "\<And>xs t. background_task (foldl (\<lambda>s' opus. Schedule (SendAudioTask opus) s') t xs)
                 = background_task t"
  proof -
    fix xs :: "opus_frame list" and t :: app
    show "background_task (foldl (\<lambda>s' opus. Schedule (SendAudioTask opus) s') t xs) = background_task t"
      by (induction xs arbitrary: t) (simp_all add: Schedule_def)
  qed
  have keep: "\<And>cb t. background_task (closure_body env cb t) = background_task t"
  proof -
    fix cb :: background_closure and t :: app
    show "background_task (closure_body env cb t) = background_task t"
      by (cases cb) (simp_all add: emit_def sched Let_def split: option.splits)
  qed
  show "((env, worker_step env s), (env, s))
          \<in> measure (\<lambda>(env, s). 3 * length (bg_main_tasks (background_task s))
                                + 2 * length (bg_tasks (background_task s))
                                + (case bg_current (background_task s) of None \<Rightarrow> 0 | Some _ \<Rightarrow> 1))"
  proof (cases "bg_current (background_task s)")
    case (Some cb)
    then show ?thesis
      by (auto simp: worker_step_def worker_finish_def keep bg_note_def Let_def)
  next
    case None
    show ?thesis
    proof (cases "worker_start (background_task s)")
      case (Some p)
      with None show ?thesis
        by (cases p)
           (auto simp: worker_step_def worker_start_def worker_finish_def bg_note_def Let_def
                 split: option.splits list.splits)
    next
      case nostart: None
      with en None obtain bt1 where tk: "worker_take (background_task s) = Some bt1"
        by (auto simp: worker_enabled_def)
      then show ?thesis
        using None nostart by (auto simp: worker_step_def worker_take_def split: if_splits)
    qed
  qed
qed

declare WaitForCompletion.simps [simp del]

subsection \<open>Decoder, sample rate, IoT states\<close>

text \<open>\<^verbatim>\<open>Application::ResetDecoder\<close>.\<close>

definition ResetDecoder :: "app \<Rightarrow> app" where
  "ResetDecoder s =
     (let s1 = emit DecoderResetState s;
          s2 = s1\<lparr>audio_decode_queue := []\<rparr>;
          s3 = s2\<lparr>last_output_time := steady_now (world s2)\<rparr>
      in emit (CodecEnableOutput True) s3)"

text \<open>\<^verbatim>\<open>Application::SetDecodeSampleRate\<close>.\<close>

definition SetDecodeSampleRate :: "env \<Rightarrow> int \<Rightarrow> app \<Rightarrow> app" where
  "SetDecodeSampleRate env sample_rate s =
     (if opus_decode_sample_rate s = sample_rate then s
      else
        (let s1 = s\<lparr>opus_decode_sample_rate := sample_rate\<rparr>;
             s2 = emit (DecoderCreate (opus_decode_sample_rate s1) 1) s1
         in if opus_decode_sample_rate s2 \<noteq> codec_output_sample_rate env
            then emit (OutputResamplerConfigure (opus_decode_sample_rate s2) (codec_output_sample_rate env))
                   (emit (EspLog LOGI ''Resampling audio from %d to %d''
                            [ArgI (opus_decode_sample_rate s2), ArgI (codec_output_sample_rate env)]) s2)
            else s2))"

text \<open>\<^verbatim>\<open>Application::UpdateIotStates\<close>.\<close>

definition UpdateIotStates :: "app \<Rightarrow> app option" where
  "UpdateIotStates s =
     (let states = thing_states_json (world s)
      in if states \<noteq> last_iot_states s
         then proto (ProtoSendIotStates states) (s\<lparr>last_iot_states := states\<rparr>)
         else Some s)"


subsection \<open>The device state machine\<close>

text \<open>
  The status texts of the display are UTF-8 string literals in the source; they are given
  here byte by byte.
\<close>

definition STATUS_STANDBY :: string where
  "STATUS_STANDBY = [CHR 0xE5, CHR 0xBE, CHR 0x85, CHR 0xE5, CHR 0x91, CHR 0xBD]"

definition STATUS_CONNECTING :: string where
  "STATUS_CONNECTING =
     [CHR 0xE8, CHR 0xBF, CHR 0x9E, CHR 0xE6, CHR 0x8E, CHR 0xA5, CHR 0xE4, CHR 0xB8, CHR 0xAD] @ ''...''"

definition STATUS_LISTENING :: string where
  "STATUS_LISTENING =
     [CHR 0xE8, CHR 0x81, CHR 0x86, CHR 0xE5, CHR 0x90, CHR 0xAC, CHR 0xE4, CHR 0xB8, CHR 0xAD] @ ''...''"

definition STATUS_SPEAKING :: string where
  "STATUS_SPEAKING =
     [CHR 0xE8, CHR 0xAF, CHR 0xB4, CHR 0xE8, CHR 0xAF, CHR 0x9D, CHR 0xE4, CHR 0xB8, CHR 0xAD] @ ''...''"

text \<open>The \<^verbatim>\<open>switch (state)\<close> of \<^verbatim>\<open>SetDeviceState\<close>, entered after the LED has been told.\<close>

fun state_switch :: "env \<Rightarrow> DeviceState \<Rightarrow> app \<Rightarrow> app option" where
  "state_switch env kDeviceStateUnknown s =
     (let s1 = emit (DisplaySetStatus STATUS_STANDBY) s;
          s2 = emit (DisplaySetEmotion ''neutral'') s1
      in Some (if esp32s3 env then emit ProcessorStop s2 else s2))"
| "state_switch env kDeviceStateIdle s =
     (let s1 = emit (DisplaySetStatus STATUS_STANDBY) s;
          s2 = emit (DisplaySetEmotion ''neutral'') s1
      in Some (if esp32s3 env then emit ProcessorStop s2 else s2))"
| "state_switch env kDeviceStateConnecting s =
     Some (emit (DisplaySetStatus STATUS_CONNECTING) s)"
| "state_switch env kDeviceStateListening s =
     (let s1 = emit (DisplaySetStatus STATUS_LISTENING) s;
          s2 = emit (DisplaySetEmotion ''neutral'') s1;
          s3 = ResetDecoder s2;
          s4 = emit EncoderResetState s3;
          s5 = (if esp32s3 env then emit ProcessorStart s4 else s4)
      in UpdateIotStates s5)"
| "state_switch env kDeviceStateSpeaking s =
     (let s1 = emit (DisplaySetStatus STATUS_SPEAKING) s;
          s2 = ResetDecoder s1
      in Some (if esp32s3 env then emit ProcessorStop s2 else s2))"
| "state_switch env kDeviceStateStarting s = Some s"
| "state_switch env kDeviceStateConfiguring s = Some s"
| "state_switch env kDeviceStateUpgrading s = Some s"
| "state_switch env kDeviceStateFatalError s = Some s"
| "state_switch env kDeviceStateInvalidState s = Some s"

text \<open>\<^verbatim>\<open>Application::SetDeviceState\<close>.\<close>

definition SetDeviceState :: "env \<Rightarrow> DeviceState \<Rightarrow> app \<Rightarrow> app option" where
  "SetDeviceState env state s =
     (if device_state s = state then Some s
      else
        (let s1 = s\<lparr>device_state := state\<rparr>;
             s2 = emit (EspLog LOGI ''STATE: %s'' [ArgS (STATE_STRINGS (device_state s1))]) s1
         in case WaitForCompletion env s2 of
              None \<Rightarrow> None
            | Some s3 \<Rightarrow> state_switch env state (emit LedOnStateChanged s3)))"

text \<open>\<^verbatim>\<open>Application::AbortSpeaking\<close>.\<close>

definition AbortSpeaking :: "AbortReason \<Rightarrow> app \<Rightarrow> app option" where
  "AbortSpeaking reason s =
     (let s1 = emit (EspLog LOGI ''Abort speaking'' []) s;
          s2 = s1\<lparr>aborted := True\<rparr>
      in proto (ProtoSendAbortSpeaking reason) s2)"

subsection \<open>The audio pipelines\<close>

text \<open>
  \<^verbatim>\<open>duration_cast<std::chrono::seconds>\<close> of a difference of two readings of the steady
  clock, whose unit is the nanosecond: integer division that truncates towards zero.
\<close>

definition duration_cast_seconds :: "int \<Rightarrow> int" where
  "duration_cast_seconds d =
     (if 0 \<le> d then d div 1000000000 else - ((- d) div 1000000000))"

definition max_silence_seconds :: int where
  "max_silence_seconds = 10"

text \<open>\<^verbatim>\<open>Application::OutputAudio\<close>.\<close>

definition OutputAudio :: "env \<Rightarrow> app \<Rightarrow> app" where
  "OutputAudio env s =
     (let now = steady_now (world s) in
      if audio_decode_queue s = [] then
        (if device_state s = kDeviceStateIdle then
           (let duration = duration_cast_seconds (now - last_output_time s)
            in if duration > max_silence_seconds then emit (CodecEnableOutput False) s else s)
         else s)
      else if device_state s = kDeviceStateListening then s\<lparr>audio_decode_queue := []\<rparr>
      else
        (let s1 = s\<lparr>last_output_time := now\<rparr>;
             opus = hd (audio_decode_queue s1);
             s2 = s1\<lparr>audio_decode_queue := tl (audio_decode_queue s1)\<rparr>
         in background_Schedule (DecodeClosure opus) s2))"

text \<open>
  \<^verbatim>\<open>Application::InputAudio\<close>. Lines 554-576 (split the channels, resample each, interleave
  again) are the function \<open>input_resample\<close> of the environment.
\<close>

definition InputAudio :: "env \<Rightarrow> app \<Rightarrow> app" where
  "InputAudio env s =
     (case codec_input_data (world s) of
        None \<Rightarrow> s
      | Some data0 \<Rightarrow>
          (let data = (if codec_input_sample_rate env \<noteq> 16000 then input_resample env data0 else data0)
           in if esp32s3 env then
                (let s1 = (if processor_running (world s) then emit (ProcessorInput data) s else s)
                 in if detection_running (world s1) then emit (WakeWordFeed data) s1 else s1)
              else if device_state s = kDeviceStateListening
                   then background_Schedule (EncodeClosure data) s
                   else s))"

text \<open>The handler that \<^verbatim>\<open>Start\<close> registers with \<^verbatim>\<open>protocol_->OnIncomingAudio\<close>.\<close>

definition OnIncomingAudio :: "opus_frame \<Rightarrow> app \<Rightarrow> app" where
  "OnIncomingAudio data s =
     (if device_state s = kDeviceStateSpeaking
      then s\<lparr>audio_decode_queue := audio_decode_queue s @ [data]\<rparr>
      else s)"

subsection \<open>The local prompt player\<close>

definition sizeof_BinaryProtocol3 :: "env \<Rightarrow> nat" where
  "sizeof_BinaryProtocol3 env = p3_size_offset env + 2 + p3_tail env"

text \<open>\<^verbatim>\<open>ntohs\<close> of the two bytes of \<^verbatim>\<open>payload_size\<close>, in the order they lie in memory.\<close>

definition ntohs :: "byte \<Rightarrow> byte \<Rightarrow> nat" where
  "ntohs b0 b1 = 256 * unat b0 + unat b1"

text \<open>
  The loop of \<^verbatim>\<open>PlayLocalFile\<close>; \<open>p\<close> is the distance of the pointer \<^verbatim>\<open>p\<close> from
  \<^verbatim>\<open>data\<close> and \<open>length buf\<close> is \<^verbatim>\<open>size\<close>. Reading a byte that lies beyond the buffer is
  undefined in the source and \<open>None\<close> here.
\<close>

function PlayLocalFile_loop :: "env \<Rightarrow> byte list \<Rightarrow> nat \<Rightarrow> app \<Rightarrow> app option" where
  "PlayLocalFile_loop env buf p s =
     (if p < length buf then
        (if p + p3_size_offset env + 2 \<le> length buf then
           (let payload_size = ntohs (buf ! (p + p3_size_offset env)) (buf ! (p + p3_size_offset env + 1));
                q = p + sizeof_BinaryProtocol3 env
            in if payload_size = 0 \<or> q + payload_size \<le> length buf then
                 PlayLocalFile_loop env buf (q + payload_size)
                   (s\<lparr>audio_decode_queue := audio_decode_queue s @ [take payload_size (drop q buf)]\<rparr>)
               else None)
         else None)
      else Some s)"
  by pat_completeness auto
termination
  by (relation "measure (\<lambda>(env, buf, p, s). length buf - p)")
     (auto simp: sizeof_BinaryProtocol3_def)

declare PlayLocalFile_loop.simps [simp del]

text \<open>\<^verbatim>\<open>Application::PlayLocalFile\<close>.\<close>

definition PlayLocalFile :: "env \<Rightarrow> byte list \<Rightarrow> app \<Rightarrow> app option" where
  "PlayLocalFile env buf s =
     (let s1 = emit (EspLog LOGI ''PlayLocalFile: %zu bytes'' [ArgN (length buf)]) s;
          s2 = SetDecodeSampleRate env 16000 s1
      in PlayLocalFile_loop env buf 0 s2)"

text \<open>\<^verbatim>\<open>Application::Alert\<close>.\<close>

definition Alert :: "env \<Rightarrow> string \<Rightarrow> string \<Rightarrow> app \<Rightarrow> app option" where
  "Alert env title message s =
     (let s1 = emit (EspLog LOGW ''Alert: %s, %s'' [ArgS title, ArgS message]) s;
          s2 = emit (DisplayShowNotification message) s1
      in if message = ''PIN is not ready'' then PlayLocalFile env (p3_err_pin env) s2
         else if message = ''Configuring WiFi'' then PlayLocalFile env (p3_err_wificonfig env) s2
         else if message = ''Registration denied'' then PlayLocalFile env (p3_err_reg env) s2
         else Some s2)"


subsection \<open>The closures of the main loop\<close>

definition listen_manual :: "env \<Rightarrow> app \<Rightarrow> app option" where
  \<comment> \<open>the last two statements of the idle branch of \<^verbatim>\<open>StartListening\<close>\<close>
  "listen_manual env s =
     do {
       s1 \<leftarrow> proto (ProtoSendStartListening kListeningModeManualStop) s;
       SetDeviceState env kDeviceStateListening s1
     }"

fun send_wake_word_opus :: "opus_frame list \<Rightarrow> app \<Rightarrow> app option" where
  \<comment> \<open>\<^verbatim>\<open>while (wake_word_detect_.GetWakeWordOpus(opus)) protocol_->SendAudio(opus);\<close>\<close>
  "send_wake_word_opus [] s = Some s"
| "send_wake_word_opus (opus # rest) s =
     do { s1 \<leftarrow> proto (ProtoSendAudio opus) s; send_wake_word_opus rest s1 }"

fun run_main_closure :: "env \<Rightarrow> main_closure \<Rightarrow> app \<Rightarrow> app option" where
  "run_main_closure env ToggleChatStateTask s =
     (if \<not> protocol_ready s then Some (emit (EspLog LOGE ''Protocol not initialized'' []) s)
      else if device_state s = kDeviceStateIdle then
        do {
          s1 \<leftarrow> SetDeviceState env kDeviceStateConnecting s;
          s2 \<leftarrow> proto ProtoOpenAudioChannel s1;
          if \<not> open_audio_channel_result (world s2) then
            do {
              s3 \<leftarrow> Alert env ''Error'' ''Failed to open audio channel'' s2;
              SetDeviceState env kDeviceStateIdle s3
            }
          else
            do {
              s3 \<leftarrow> proto (ProtoSendStartListening kListeningModeAutoStop) (s2\<lparr>keep_listening := True\<rparr>);
              SetDeviceState env kDeviceStateListening s3
            }
        }
      else if device_state s = kDeviceStateSpeaking then AbortSpeaking kAbortReasonNone s
      else if device_state s = kDeviceStateListening then proto ProtoCloseAudioChannel s
      else Some s)"
| "run_main_closure env StartListeningTask s =
     (if \<not> protocol_ready s then Some (emit (EspLog LOGE ''Protocol not initialized'' []) s)
      else
        (let s0 = s\<lparr>keep_listening := False\<rparr> in
         if device_state s0 = kDeviceStateIdle then
           (if \<not> audio_channel_opened (world s0) then
              do {
                s1 \<leftarrow> SetDeviceState env kDeviceStateConnecting s0;
                s2 \<leftarrow> proto ProtoOpenAudioChannel s1;
                if \<not> open_audio_channel_result (world s2) then
                  do {
                    s3 \<leftarrow> SetDeviceState env kDeviceStateIdle s2;
                    Alert env ''Error'' ''Failed to open audio channel'' s3
                  }
                else listen_manual env s2
              }
            else listen_manual env s0)
         else if device_state s0 = kDeviceStateSpeaking then
           do {
             s1 \<leftarrow> AbortSpeaking kAbortReasonNone s0;
             s2 \<leftarrow> proto (ProtoSendStartListening kListeningModeManualStop) s1;
             SetDeviceState env kDeviceStateListening (emit (TaskDelay 120) s2)
           }
         else Some s0))"
| "run_main_closure env StopListeningTask s =
     (if device_state s = kDeviceStateListening then
        do {
          s1 \<leftarrow> proto ProtoSendStopListening s;
          SetDeviceState env kDeviceStateIdle s1
        }
      else Some s)"
| "run_main_closure env (SendAudioTask opus) s = proto (ProtoSendAudio opus) s"
| "run_main_closure env (VadStateChangeTask speaking) s =
     (if device_state s = kDeviceStateListening
      then Some (emit LedOnStateChanged (s\<lparr>voice_detected := speaking\<rparr>))
      else Some s)"
| "run_main_closure env (WakeWordDetectedTask wake_word) s =
     (if device_state s = kDeviceStateIdle then
        do {
          s1 \<leftarrow> SetDeviceState env kDeviceStateConnecting s;
          s2 \<leftarrow> proto ProtoOpenAudioChannel (emit WakeWordEncodeData s1);
          if \<not> open_audio_channel_result (world s2) then
            do {
              s3 \<leftarrow> SetDeviceState env kDeviceStateIdle
                     (emit (EspLog LOGE ''Failed to open audio channel'' []) s2);
              Some (emit WakeWordStartDetection s3)
            }
          else
            do {
              s3 \<leftarrow> send_wake_word_opus (wake_word_opus (world s2)) s2;
              s4 \<leftarrow> proto (ProtoSendWakeWordDetected wake_word) s3;
              s5 \<leftarrow> SetDeviceState env kDeviceStateListening
                     ((emit (EspLog LOGI ''Wake word detected: %s'' [ArgS wake_word]) s4)
                        \<lparr>keep_listening := True\<rparr>);
              Some (emit WakeWordStartDetection s5)
            }
        }
      else if device_state s = kDeviceStateSpeaking then
        do {
          s1 \<leftarrow> AbortSpeaking kAbortReasonWakeWordDetected s;
          Some (emit WakeWordStartDetection s1)
        }
      else Some (emit WakeWordStartDetection s))"
| "run_main_closure env AudioChannelClosedTask s =
     SetDeviceState env kDeviceStateIdle (emit (DisplaySetChatMessage [] []) s)"
| "run_main_closure env TtsStartTask s =
     (let s1 = s\<lparr>aborted := False\<rparr> in
      if device_state s1 = kDeviceStateIdle \<or> device_state s1 = kDeviceStateListening
      then SetDeviceState env kDeviceStateSpeaking s1
      else Some s1)"
| "run_main_closure env TtsStopTask s =
     (if device_state s = kDeviceStateSpeaking then
        do {
          s1 \<leftarrow> WaitForCompletion env s;
          if keep_listening s1 then
            do {
              s2 \<leftarrow> proto (ProtoSendStartListening kListeningModeAutoStop) s1;
              SetDeviceState env kDeviceStateListening s2
            }
          else SetDeviceState env kDeviceStateIdle s1
        }
      else Some s)"

text \<open>\<^verbatim>\<open>for (auto& task : tasks) task();\<close> in \<^verbatim>\<open>MainLoop\<close>.\<close>

fun run_main_tasks :: "env \<Rightarrow> main_closure list \<Rightarrow> app \<Rightarrow> app option" where
  "run_main_tasks env [] s = Some s"
| "run_main_tasks env (task # tasks) s =
     do { s1 \<leftarrow> run_main_closure env task s; run_main_tasks env tasks s1 }"

text \<open>
  One turn of the \<^verbatim>\<open>while (true)\<close> of \<^verbatim>\<open>MainLoop\<close>. With no bit set the loop stays in
  \<^verbatim>\<open>xEventGroupWaitBits\<close>; otherwise the bits are read and cleared together.
\<close>

definition MainLoop :: "env \<Rightarrow> app \<Rightarrow> app option" where
  "MainLoop env s =
     (let bits = event_bits s in
      if bits = {} then Some s
      else
        (let s0 = s\<lparr>event_bits := {}\<rparr>;
             s1 = (if AUDIO_INPUT_READY_EVENT \<in> bits then InputAudio env s0 else s0);
             s2 = (if AUDIO_OUTPUT_READY_EVENT \<in> bits then OutputAudio env s1 else s1)
         in if SCHEDULE_EVENT \<in> bits
            then run_main_tasks env (main_tasks s2) (s2\<lparr>main_tasks := []\<rparr>)
            else Some s2))"

subsection \<open>The handlers registered by \<^verbatim>\<open>Start\<close>\<close>

definition RATE_MISMATCH_FORMAT :: string where
  \<comment> \<open>the format string of the warning in the handler of \<^verbatim>\<open>OnAudioChannelOpened\<close>\<close>
  "RATE_MISMATCH_FORMAT =
     [
      CHR 0xE6, CHR 0x9C, CHR 0x8D, CHR 0xE5, CHR 0x8A, CHR 0xA1, CHR 0xE5, CHR 0x99,
      CHR 0xA8, CHR 0xE7, CHR 0x9A, CHR 0x84, CHR 0xE9, CHR 0x9F, CHR 0xB3, CHR 0xE9,
      CHR 0xA2, CHR 0x91, CHR 0xE9, CHR 0x87, CHR 0x87, CHR 0xE6, CHR 0xA0, CHR 0xB7,
      CHR 0xE7, CHR 0x8E, CHR 0x87, CHR 0x20, CHR 0x25, CHR 0x64, CHR 0x20, CHR 0xE4,
      CHR 0xB8, CHR 0x8E, CHR 0xE8, CHR 0xAE, CHR 0xBE, CHR 0xE5, CHR 0xA4, CHR 0x87,
      CHR 0xE8, CHR 0xBE, CHR 0x93, CHR 0xE5, CHR 0x87, CHR 0xBA, CHR 0xE7, CHR 0x9A,
      CHR 0x84, CHR 0xE9, CHR 0x87, CHR 0x87, CHR 0xE6, CHR 0xA0, CHR 0xB7, CHR 0xE7,
      CHR 0x8E, CHR 0x87, CHR 0x20, CHR 0x25, CHR 0x64, CHR 0x20, CHR 0xE4, CHR 0xB8,
      CHR 0x8D, CHR 0xE4, CHR 0xB8, CHR 0x80, CHR 0xE8, CHR 0x87, CHR 0xB4, CHR 0xEF,
      CHR 0xBC, CHR 0x8C, CHR 0xE9, CHR 0x87, CHR 0x8D, CHR 0xE9, CHR 0x87, CHR 0x87,
      CHR 0xE6, CHR 0xA0, CHR 0xB7, CHR 0xE5, CHR 0x90, CHR 0x8E, CHR 0xE5, CHR 0x8F,
      CHR 0xAF, CHR 0xE8, CHR 0x83, CHR 0xBD, CHR 0xE4, CHR 0xBC, CHR 0x9A, CHR 0xE5,
      CHR 0xA4, CHR 0xB1, CHR 0xE7, CHR 0x9C, CHR 0x9F]"

definition OnNetworkError :: "env \<Rightarrow> string \<Rightarrow> app \<Rightarrow> app option" where
  "OnNetworkError env message s = Alert env ''Error'' message s"

definition OnAudioChannelOpened :: "env \<Rightarrow> app \<Rightarrow> app option" where
  "OnAudioChannelOpened env s =
     (let s1 = emit (BoardSetPowerSaveMode False) s;
          s2 = (if server_sample_rate (world s1) \<noteq> codec_output_sample_rate env
                then emit (EspLog LOGW RATE_MISMATCH_FORMAT
                             [ArgI (server_sample_rate (world s1)), ArgI (codec_output_sample_rate env)]) s1
                else s1);
          s3 = SetDecodeSampleRate env (server_sample_rate (world s2)) s2;
          s4 = s3\<lparr>last_iot_states := []\<rparr>
      in proto (ProtoSendIotDescriptors (thing_descriptors_json (world s4))) s4)"

definition OnAudioChannelClosed :: "app \<Rightarrow> app" where
  "OnAudioChannelClosed s = Schedule AudioChannelClosedTask (emit (BoardSetPowerSaveMode True) s)"

text \<open>
  A control message is the parsed object: its \<^verbatim>\<open>type\<close> and, for \<^verbatim>\<open>tts\<close>, its
  \<^verbatim>\<open>state\<close> are strings (the handler reads both without a null check); the members it
  checks for null are optional.
\<close>

datatype control_message =
    TtsMessage string "string option"     \<comment> \<open>state, text\<close>
  | SttMessage "string option"            \<comment> \<open>text\<close>
  | LlmMessage "string option"            \<comment> \<open>emotion\<close>
  | IotMessage "string list option"       \<comment> \<open>commands\<close>
  | OtherMessage string                   \<comment> \<open>any other type\<close>

fun OnIncomingJson :: "control_message \<Rightarrow> app \<Rightarrow> app" where
  "OnIncomingJson (TtsMessage state text) s =
     (if state = ''start'' then Schedule TtsStartTask s
      else if state = ''stop'' then Schedule TtsStopTask s
      else if state = ''sentence_start'' then
        (case text of
           None \<Rightarrow> s
         | Some t \<Rightarrow> emit (DisplaySetChatMessage ''assistant'' t) (emit (EspLog LOGI ''<< %s'' [ArgS t]) s))
      else s)"
| "OnIncomingJson (SttMessage text) s =
     (case text of
        None \<Rightarrow> s
      | Some t \<Rightarrow> emit (DisplaySetChatMessage ''user'' t) (emit (EspLog LOGI ''>> %s'' [ArgS t]) s))"
| "OnIncomingJson (LlmMessage emotion) s =
     (case emotion of None \<Rightarrow> s | Some e \<Rightarrow> emit (DisplaySetEmotion e) s)"
| "OnIncomingJson (IotMessage commands) s =
     (case commands of
        None \<Rightarrow> s
      | Some cs \<Rightarrow> foldl (\<lambda>s' command. emit (ThingInvoke command) s') s cs)"
| "OnIncomingJson (OtherMessage ty) s = s"


text \<open>The three public entry points post their closure to the main loop.\<close>

definition ToggleChatState :: "app \<Rightarrow> app" where
  "ToggleChatState s = Schedule ToggleChatStateTask s"

definition StartListening :: "app \<Rightarrow> app" where
  "StartListening s = Schedule StartListeningTask s"

definition StopListening :: "app \<Rightarrow> app" where
  "StopListening s = Schedule StopListeningTask s"

subsection \<open>The application as a transition system\<close>

text \<open>
  Everything that can happen to the application object, one event per entry into its code:
  a change of what the collaborators answer, the codec's two readiness callbacks, one turn
  of the main loop, one action of the background worker, the three public entry points,
  the transport's callbacks, and the callbacks of the audio processor and of the wake-word
  detector (which \<^verbatim>\<open>Start\<close> registers on the ESP32-S3 only). An event is executed in one
  piece; a closure of the background worker takes two actions of the worker. The start-up
  sequence of \<^verbatim>\<open>Start\<close> and the firmware check of \<^verbatim>\<open>CheckNewVersion\<close> are not events: the
  transition system describes the application once its handlers are registered.
\<close>

datatype event =
    EnvironmentChange world
  | CodecInputReady
  | CodecOutputReady
  | MainLoopTurn
  | WorkerTurn
  | CallToggleChatState
  | CallStartListening
  | CallStopListening
  | NetworkError string
  | IncomingAudio opus_frame
  | AudioChannelOpened
  | AudioChannelClosed
  | IncomingJson control_message
  | ProcessorOutput pcm_block
  | VadStateChange bool
  | WakeWordDetected string

fun app_step :: "env \<Rightarrow> event \<Rightarrow> app \<Rightarrow> app option" where
  "app_step env (EnvironmentChange w) s = Some (s\<lparr>world := w\<rparr>)"
| "app_step env CodecInputReady s =
     Some (s\<lparr>event_bits := insert AUDIO_INPUT_READY_EVENT (event_bits s)\<rparr>)"
| "app_step env CodecOutputReady s =
     Some (s\<lparr>event_bits := insert AUDIO_OUTPUT_READY_EVENT (event_bits s)\<rparr>)"
| "app_step env MainLoopTurn s = MainLoop env s"
| "app_step env WorkerTurn s = Some (worker_step env s)"
| "app_step env CallToggleChatState s = Some (ToggleChatState s)"
| "app_step env CallStartListening s = Some (StartListening s)"
| "app_step env CallStopListening s = Some (StopListening s)"
| "app_step env (NetworkError message) s = OnNetworkError env message s"
| "app_step env (IncomingAudio data) s = Some (OnIncomingAudio data s)"
| "app_step env AudioChannelOpened s = OnAudioChannelOpened env s"
| "app_step env AudioChannelClosed s = Some (OnAudioChannelClosed s)"
| "app_step env (IncomingJson message) s = Some (OnIncomingJson message s)"
| "app_step env (ProcessorOutput data) s =
     Some (if esp32s3 env then background_Schedule (EncodeClosure data) s else s)"
| "app_step env (VadStateChange speaking) s =
     Some (if esp32s3 env then Schedule (VadStateChangeTask speaking) s else s)"
| "app_step env (WakeWordDetected wake_word) s =
     Some (if esp32s3 env then Schedule (WakeWordDetectedTask wake_word) s else s)"

fun app_run :: "env \<Rightarrow> event list \<Rightarrow> app \<Rightarrow> app option" where
  "app_run env [] s = Some s"
| "app_run env (e # es) s = (case app_step env e s of None \<Rightarrow> None | Some s' \<Rightarrow> app_run env es s')"

fun tts_start_event :: "event \<Rightarrow> bool" where
  "tts_start_event (IncomingJson (TtsMessage state text)) = (state = ''start'')"
| "tts_start_event _ = False"


section \<open>Notions used in the statements\<close>

text \<open>
  The executor's counter agrees with its lists: it counts the closures that were submitted
  and whose epilogue has not run.
\<close>

definition executor_ok :: "'c BackgroundTask \<Rightarrow> bool" where
  "executor_ok bt \<longleftrightarrow> active_tasks bt = int (length (outstanding bt))"

text \<open>
  A framed record: a header of the fixed size whose field \<^verbatim>\<open>payload_size\<close> holds, in
  network byte order, the length of the payload that follows it.
\<close>

definition p3_header :: "env \<Rightarrow> byte list \<Rightarrow> opus_frame \<Rightarrow> bool" where
  "p3_header env hdr payload \<longleftrightarrow>
     length hdr = sizeof_BinaryProtocol3 env \<and>
     ntohs (hdr ! p3_size_offset env) (hdr ! (p3_size_offset env + 1)) = length payload"

definition p3_framed :: "env \<Rightarrow> (byte list \<times> opus_frame) list \<Rightarrow> bool" where
  "p3_framed env frames \<longleftrightarrow> list_all (\<lambda>(hdr, payload). p3_header env hdr payload) frames"

definition p3_buffer :: "(byte list \<times> opus_frame) list \<Rightarrow> byte list" where
  "p3_buffer frames = concat (map (\<lambda>(hdr, payload). hdr @ payload) frames)"

definition prompts_framed :: "env \<Rightarrow> bool" where
  "prompts_framed env \<longleftrightarrow>
     (\<exists>frames. p3_framed env frames \<and> p3_err_pin env = p3_buffer frames) \<and>
     (\<exists>frames. p3_framed env frames \<and> p3_err_wificonfig env = p3_buffer frames) \<and>
     (\<exists>frames. p3_framed env frames \<and> p3_err_reg env = p3_buffer frames)"

text \<open>The effects that \<^verbatim>\<open>SetDeviceState\<close> applies for the new state.\<close>

fun side_effect :: "effect \<Rightarrow> bool" where
  "side_effect LedOnStateChanged = True"
| "side_effect (DisplaySetStatus _) = True"
| "side_effect (DisplaySetEmotion _) = True"
| "side_effect DecoderResetState = True"
| "side_effect (CodecEnableOutput _) = True"
| "side_effect EncoderResetState = True"
| "side_effect ProcessorStart = True"
| "side_effect ProcessorStop = True"
| "side_effect (ProtoSendIotStates _) = True"
| "side_effect _ = False"

text \<open>The effects of the closures that run on the background worker.\<close>

fun closure_effect :: "effect \<Rightarrow> bool" where
  "closure_effect (DecoderDecode _) = True"
| "closure_effect (OutputResamplerProcess _) = True"
| "closure_effect (CodecOutputData _) = True"
| "closure_effect (EncoderEncode _) = True"
| "closure_effect _ = False"

fun warning :: "effect \<Rightarrow> bool" where
  "warning (EspLog level _ _) = (level = LOGW)"
| "warning _ = False"

fun pcm_effect :: "effect \<Rightarrow> bool" where
  "pcm_effect (CodecOutputData _) = True"
| "pcm_effect _ = False"

definition warnings :: "app \<Rightarrow> effect list" where
  "warnings s = filter warning (effects s)"

fun send_audio_task :: "main_closure \<Rightarrow> bool" where
  "send_audio_task (SendAudioTask _) = True"
| "send_audio_task _ = False"

text \<open>
  What the background worker may have done between two states of the application: it has
  added effects of closures, has posted closures that send encoded audio, and has moved
  its own executor.
\<close>

definition background_progress :: "app \<Rightarrow> app \<Rightarrow> bool" where
  "background_progress s t \<longleftrightarrow>
     (\<exists>fx mt eb bt.
        t = s\<lparr>main_tasks := main_tasks s @ mt, event_bits := eb, background_task := bt,
              effects := effects s @ fx\<rparr>
        \<and> list_all closure_effect fx \<and> list_all send_audio_task mt)"

fun decode_closure :: "background_closure \<Rightarrow> bool" where
  "decode_closure (DecodeClosure _) = True"
| "decode_closure (EncodeClosure _) = False"

definition decode_in_flight :: "app \<Rightarrow> bool" where
  \<comment> \<open>the worker is inside a decode closure that has passed its check of the abort flag\<close>
  "decode_in_flight s \<longleftrightarrow>
     (case bg_current (background_task s) of None \<Rightarrow> False | Some cb \<Rightarrow> decode_closure cb)"

text \<open>
  The state of affairs between an abort and the next \<^verbatim>\<open>tts.start\<close>, relative to the
  blocks \<open>P\<close> that the codec had received when the flag was set, and to whether a decode
  closure was in flight then (\<open>extra\<close>): the flag is set, the transport exists, the
  executor's counter is right, no closure that clears the flag is waiting on the main loop,
  and the codec has received nothing more; or, if \<open>extra\<close>, exactly one block more and then
  no decode closure is in flight any longer.
\<close>

definition abort_inv :: "pcm_block list \<Rightarrow> bool \<Rightarrow> app \<Rightarrow> bool" where
  "abort_inv P extra s \<longleftrightarrow>
     aborted s \<and> protocol_ready s \<and> executor_ok (background_task s)
     \<and> TtsStartTask \<notin> set (main_tasks s)
     \<and> ((codec_pcm s = P \<and> (decode_in_flight s \<longrightarrow> extra))
        \<or> (extra \<and> (\<exists>b. codec_pcm s = P @ [b]) \<and> \<not> decode_in_flight s))"

definition returns_with :: "(app \<Rightarrow> bool) \<Rightarrow> app option \<Rightarrow> bool" where
  \<comment> \<open>the operation returns, in a state that satisfies \<open>I\<close>\<close>
  "returns_with I r \<longleftrightarrow> (\<exists>s'. r = Some s' \<and> I s')"

text \<open>
  The transitions that the specification of the state machine lists as legal, in its own
  words: Idle to Connecting, Connecting to Listening, Listening to Speaking and back,
  Speaking to Idle, Listening to Idle, anything to Upgrading, anything to FatalError.
\<close>

definition legal_transition :: "DeviceState \<Rightarrow> DeviceState \<Rightarrow> bool" where
  "legal_transition a b \<longleftrightarrow>
     (a = kDeviceStateIdle \<and> b = kDeviceStateConnecting)
     \<or> (a = kDeviceStateConnecting \<and> b = kDeviceStateListening)
     \<or> (a = kDeviceStateListening \<and> b = kDeviceStateSpeaking)
     \<or> (a = kDeviceStateSpeaking \<and> b = kDeviceStateListening)
     \<or> (a = kDeviceStateSpeaking \<and> b = kDeviceStateIdle)
     \<or> (a = kDeviceStateListening \<and> b = kDeviceStateIdle)
     \<or> b = kDeviceStateUpgrading
     \<or> b = kDeviceStateFatalError"

definition declared_size :: "env \<Rightarrow> byte list \<Rightarrow> nat" where
  \<comment> \<open>the payload size that a prompt header declares\<close>
  "declared_size env hdr = ntohs (hdr ! p3_size_offset env) (hdr ! (p3_size_offset env + 1))"

definition executor_idle :: "'c BackgroundTask \<Rightarrow> bool" where
  "executor_idle bt \<longleftrightarrow> outstanding bt = [] \<and> active_tasks bt = 0"

subsection \<open>A concrete device\<close>

text \<open>
  A board without the ESP32-S3 pipelines, with a 24 kHz output, a prompt header of four
  bytes whose last two are \<^verbatim>\<open>payload_size\<close>, and stand-ins for the kernels.
\<close>

definition sample_env :: env where
  "sample_env =
     \<lparr>esp32s3 = False, codec_output_sample_rate = 24000, codec_input_sample_rate = 16000,
      opus_decode = (\<lambda>frame. if frame = [] then None else Some (map ucast frame)),
      opus_encode = (\<lambda>pcm. [map ucast pcm]),
      output_resample = (\<lambda>pcm. pcm), input_resample = (\<lambda>pcm. pcm),
      p3_size_offset = 2, p3_tail = 0,
      p3_err_pin = [], p3_err_wificonfig = [], p3_err_reg = []\<rparr>"

definition sample_world :: world where
  "sample_world =
     \<lparr>steady_now = 0, thing_states_json = ''[]'', thing_descriptors_json = ''[]'',
      open_audio_channel_result = True, audio_channel_opened = False, server_sample_rate = 24000,
      codec_input_data = None, processor_running = False, detection_running = False,
      wake_word_opus = []\<rparr>"

definition sample_app :: app where
  "sample_app =
     \<lparr>device_state = kDeviceStateIdle, keep_listening = False, aborted = False,
      voice_detected = False, protocol_ready = True, audio_decode_queue = [],
      last_output_time = 0, opus_decode_sample_rate = 24000, last_iot_states = [],
      main_tasks = [], event_bits = {}, background_task = BackgroundTask_new, effects = [],
      world = sample_world\<rparr>"

definition s5_frames :: "(byte list \<times> opus_frame) list" where
  \<comment> \<open>two records with payloads of 320 and 280 bytes\<close>
  "s5_frames = [([0, 0, 1, 64], replicate 320 7), ([0, 0, 1, 24], replicate 280 9)]"

definition in_state :: "DeviceState \<Rightarrow> app \<Rightarrow> app" where
  "in_state d s = s\<lparr>device_state := d\<rparr>"

definition speaking_app :: app where
  \<comment> \<open>the device while it speaks, with two frames waiting to be decoded\<close>
  "speaking_app = in_state kDeviceStateSpeaking (sample_app\<lparr>audio_decode_queue := [[1, 2], [3, 4]]\<rparr>)"

definition at_time :: "int \<Rightarrow> app \<Rightarrow> app" where
  "at_time now s = s\<lparr>world := (world s)\<lparr>steady_now := now\<rparr>\<rparr>"

definition with_pending :: "background_closure list \<Rightarrow> app \<Rightarrow> app" where
  "with_pending cbs s = foldl (\<lambda>s' cb. background_Schedule cb s') s cbs"



section \<open>The background executor: counter, barrier and notification\<close>

lemma outstanding_Schedule:
  "outstanding (BackgroundTask_Schedule cb bt) = outstanding bt @ [cb]"
  by (simp add: outstanding_def BackgroundTask_Schedule_def bg_note_def Let_def)

lemma active_tasks_Schedule:
  "active_tasks (BackgroundTask_Schedule cb bt) = active_tasks bt + 1"
  by (simp add: BackgroundTask_Schedule_def bg_note_def Let_def)

lemma bg_step_counter:
  assumes "bg_step a bt = Some bt'" and "active_tasks bt = int (length (outstanding bt))"
  shows "active_tasks bt' = int (length (outstanding bt'))"
proof (cases a)
  case (ActSchedule cb)
  with assms show ?thesis
    by (auto simp: outstanding_Schedule active_tasks_Schedule)
next
  case ActTake
  with assms show ?thesis
    by (auto simp: worker_take_def outstanding_def split: if_splits)
next
  case ActStart
  with assms show ?thesis
    by (auto simp: worker_start_def outstanding_def split: option.splits list.splits)
next
  case ActFinish
  with assms show ?thesis
    by (auto simp: worker_finish_def outstanding_def bg_note_def Let_def
             split: option.splits if_splits)
qed

lemma bg_run_counter:
  "bg_run acts bt = Some bt' \<Longrightarrow> active_tasks bt = int (length (outstanding bt)) \<Longrightarrow>
     active_tasks bt' = int (length (outstanding bt'))"
proof (induction acts arbitrary: bt)
  case Nil
  then show ?case by simp
next
  case (Cons a acts)
  then obtain bt1 where st: "bg_step a bt = Some bt1" and rn: "bg_run acts bt1 = Some bt'"
    by (auto split: option.splits)
  from bg_step_counter[OF st Cons.prems(2)] Cons.IH[OF rn] show ?case by simp
qed

lemma counter_new:
  "active_tasks BackgroundTask_new = int (length (outstanding (BackgroundTask_new :: 'c BackgroundTask)))"
  by (simp add: BackgroundTask_new_def outstanding_def)

lemma notify_count_finish:
  "worker_finish bt = Some bt' \<Longrightarrow>
     notify_count bt' = notify_count bt + (if bg_main_tasks bt' = [] \<and> active_tasks bt' = 0 then 1 else 0)"
  by (auto simp: worker_finish_def notify_count_def bg_note_def Let_def split: option.splits if_splits)

lemma wait_blocked_iff:
  "active_tasks bt = int (length (outstanding bt)) \<Longrightarrow>
     BackgroundTask_WaitForCompletion bt = None \<longleftrightarrow> outstanding bt \<noteq> []"
  by (auto simp: BackgroundTask_WaitForCompletion_def outstanding_def split: option.splits)

lemma only_finish_completes:
  assumes st: "bg_step a bt = Some bt'"
    and cnt: "active_tasks bt = int (length (outstanding bt))"
    and before: "BackgroundTask_WaitForCompletion bt = None"
    and after: "BackgroundTask_WaitForCompletion bt' \<noteq> None"
  shows "a = ActFinish \<and> notify_count bt' = notify_count bt + 1"
proof -
  have cnt': "active_tasks bt' = int (length (outstanding bt'))"
    using bg_step_counter[OF st cnt] .
  have empty': "outstanding bt' = []"
    using after wait_blocked_iff[OF cnt'] by simp
  show ?thesis
  proof (cases a)
    case (ActSchedule cb)
    with st empty' show ?thesis by (auto simp: outstanding_Schedule)
  next
    case ActTake
    with st empty' show ?thesis
      by (auto simp: worker_take_def outstanding_def split: if_splits)
  next
    case ActStart
    with st empty' show ?thesis
      by (auto simp: worker_start_def outstanding_def split: option.splits list.splits)
  next
    case ActFinish
    with st have f: "worker_finish bt = Some bt'" by simp
    have "bg_main_tasks bt' = [] \<and> active_tasks bt' = 0"
      using after by (auto simp: BackgroundTask_WaitForCompletion_def split: if_splits)
    with notify_count_finish[OF f] ActFinish show ?thesis by simp
  qed
qed

lemma notify_count_Schedule:
  "notify_count (BackgroundTask_Schedule cb bt) = notify_count bt + 1"
  by (simp add: notify_count_def BackgroundTask_Schedule_def bg_note_def Let_def)

text \<open>
  C7, as the claim states it, fails in its last clause: the condition variable on which
  \<^verbatim>\<open>WaitForCompletion\<close> waits is the one that wakes the worker, and \<^verbatim>\<open>Schedule\<close> signals
  it on every submission. On a new executor the first submission signals it while the
  queue holds the closure and the counter is one.
\<close>

theorem Schedule_notifies_counterexample:
  "notify_count (BackgroundTask_Schedule (7::nat) BackgroundTask_new)
     = notify_count (BackgroundTask_new :: nat BackgroundTask) + 1
   \<and> bg_main_tasks (BackgroundTask_Schedule (7::nat) BackgroundTask_new) = [7]
   \<and> active_tasks (BackgroundTask_Schedule (7::nat) BackgroundTask_new) = 1"
  by (simp add: notify_count_def BackgroundTask_Schedule_def BackgroundTask_new_def bg_note_def Let_def)

text \<open>
  C7, amended. In every state that the executor reaches from its construction by
  scheduling, taking, starting and finishing:
  the counter \<^verbatim>\<open>active_tasks_\<close> is the number of closures that were submitted and whose
  epilogue has not run (it goes up by one in \<^verbatim>\<open>Schedule\<close>, is left alone when the worker
  takes the queue or enters a closure, and goes down by one only in the epilogue of a
  closure the worker has entered, which the wrapper executes after \<^verbatim>\<open>cb()\<close>);
  \<^verbatim>\<open>WaitForCompletion\<close> returns only with an empty queue and a counter of zero, and then no
  submitted closure is left anywhere; it stays blocked exactly while one is left;
  the epilogue calls \<^verbatim>\<open>notify_all\<close> exactly when it leaves the queue empty and the counter
  at zero, and a step that makes the predicate of \<^verbatim>\<open>WaitForCompletion\<close> true is always such
  an epilogue; \<^verbatim>\<open>Schedule\<close> signals the same condition variable once per submission.
\<close>

theorem WaitForCompletion_only_when_drained:
  assumes "bg_run acts BackgroundTask_new = Some bt"
  shows "active_tasks bt = int (length (outstanding bt))
       \<and> (\<forall>bt'. BackgroundTask_WaitForCompletion bt = Some bt' \<longrightarrow>
             bt' = bt \<and> bg_main_tasks bt = [] \<and> active_tasks bt = 0 \<and> outstanding bt = [])
       \<and> (BackgroundTask_WaitForCompletion bt = None \<longleftrightarrow> outstanding bt \<noteq> [])
       \<and> (\<forall>cb. active_tasks (BackgroundTask_Schedule cb bt) = active_tasks bt + 1
              \<and> outstanding (BackgroundTask_Schedule cb bt) = outstanding bt @ [cb]
              \<and> notify_count (BackgroundTask_Schedule cb bt) = notify_count bt + 1)
       \<and> (\<forall>bt'. worker_take bt = Some bt' \<longrightarrow> active_tasks bt' = active_tasks bt)
       \<and> (\<forall>cb bt'. worker_start bt = Some (cb, bt') \<longrightarrow>
              active_tasks bt' = active_tasks bt \<and> bg_current bt' = Some cb)
       \<and> (\<forall>bt'. worker_finish bt = Some bt' \<longrightarrow>
              bg_current bt \<noteq> None \<and> active_tasks bt' = active_tasks bt - 1
              \<and> notify_count bt' = notify_count bt
                   + (if bg_main_tasks bt' = [] \<and> active_tasks bt' = 0 then 1 else 0))
       \<and> (\<forall>a bt'. bg_step a bt = Some bt' \<and> BackgroundTask_WaitForCompletion bt = None
                   \<and> BackgroundTask_WaitForCompletion bt' \<noteq> None \<longrightarrow>
              a = ActFinish \<and> notify_count bt' = notify_count bt + 1)"
proof -
  have cnt: "active_tasks bt = int (length (outstanding bt))"
    using bg_run_counter[OF assms counter_new] .
  have ret: "\<forall>bt'. BackgroundTask_WaitForCompletion bt = Some bt' \<longrightarrow>
             bt' = bt \<and> bg_main_tasks bt = [] \<and> active_tasks bt = 0 \<and> outstanding bt = []"
    using cnt by (auto simp: BackgroundTask_WaitForCompletion_def split: if_splits)
  have blk: "BackgroundTask_WaitForCompletion bt = None \<longleftrightarrow> outstanding bt \<noteq> []"
    using wait_blocked_iff[OF cnt] .
  have sch: "\<forall>cb. active_tasks (BackgroundTask_Schedule cb bt) = active_tasks bt + 1
              \<and> outstanding (BackgroundTask_Schedule cb bt) = outstanding bt @ [cb]
              \<and> notify_count (BackgroundTask_Schedule cb bt) = notify_count bt + 1"
    by (simp add: outstanding_Schedule active_tasks_Schedule notify_count_Schedule)
  have tk: "\<forall>bt'. worker_take bt = Some bt' \<longrightarrow> active_tasks bt' = active_tasks bt"
    by (auto simp: worker_take_def split: if_splits)
  have st: "\<forall>cb bt'. worker_start bt = Some (cb, bt') \<longrightarrow>
              active_tasks bt' = active_tasks bt \<and> bg_current bt' = Some cb"
    by (auto simp: worker_start_def split: option.splits list.splits)
  have fin: "\<forall>bt'. worker_finish bt = Some bt' \<longrightarrow>
              bg_current bt \<noteq> None \<and> active_tasks bt' = active_tasks bt - 1
              \<and> notify_count bt' = notify_count bt
                   + (if bg_main_tasks bt' = [] \<and> active_tasks bt' = 0 then 1 else 0)"
  proof (intro allI impI)
    fix bt' assume f: "worker_finish bt = Some bt'"
    have "bg_current bt \<noteq> None \<and> active_tasks bt' = active_tasks bt - 1"
      using f by (auto simp: worker_finish_def bg_note_def Let_def split: option.splits if_splits)
    with notify_count_finish[OF f]
    show "bg_current bt \<noteq> None \<and> active_tasks bt' = active_tasks bt - 1
              \<and> notify_count bt' = notify_count bt
                   + (if bg_main_tasks bt' = [] \<and> active_tasks bt' = 0 then 1 else 0)"
      by simp
  qed
  have reach: "\<forall>a bt'. bg_step a bt = Some bt' \<and> BackgroundTask_WaitForCompletion bt = None
                   \<and> BackgroundTask_WaitForCompletion bt' \<noteq> None \<longrightarrow>
              a = ActFinish \<and> notify_count bt' = notify_count bt + 1"
    using only_finish_completes[OF _ cnt] by blast
  from cnt ret blk sch tk st fin reach show ?thesis by blast
qed

theorem WaitForCompletion_only_when_drained_witness:
  "bg_run [ActSchedule (7::nat), ActSchedule 8, ActTake, ActStart, ActFinish, ActStart] BackgroundTask_new
     = Some \<lparr>bg_main_tasks = [], active_tasks = 1, bg_tasks = [], bg_current = Some 8,
             bg_notes = [BgNotifyAll, BgNotifyAll]\<rparr>
   \<and> BackgroundTask_WaitForCompletion
        \<lparr>bg_main_tasks = [], active_tasks = 1, bg_tasks = [], bg_current = Some (8::nat),
         bg_notes = [BgNotifyAll, BgNotifyAll]\<rparr> = None
   \<and> worker_finish
        \<lparr>bg_main_tasks = [], active_tasks = 1, bg_tasks = [], bg_current = Some (8::nat),
         bg_notes = [BgNotifyAll, BgNotifyAll]\<rparr>
      = Some \<lparr>bg_main_tasks = [], active_tasks = 0, bg_tasks = [], bg_current = None,
              bg_notes = [BgNotifyAll, BgNotifyAll, BgNotifyAll]\<rparr>"
proof -
  have r: "bg_run [ActSchedule (7::nat), ActSchedule 8, ActTake, ActStart, ActFinish, ActStart]
             BackgroundTask_new
     = Some \<lparr>bg_main_tasks = [], active_tasks = 1, bg_tasks = [], bg_current = Some 8,
             bg_notes = [BgNotifyAll, BgNotifyAll]\<rparr>"
    by (simp add: BackgroundTask_new_def BackgroundTask_Schedule_def bg_note_def worker_take_def
                  worker_start_def worker_finish_def Let_def)
  from WaitForCompletion_only_when_drained[OF r] r show ?thesis
    by (simp add: BackgroundTask_WaitForCompletion_def worker_finish_def bg_note_def Let_def)
qed


section \<open>The device state machine and the audio pipelines\<close>

text \<open>
  C9. For every state \<open>s\<close>, \<^verbatim>\<open>SetDeviceState(s)\<close> called while the device state is already
  \<open>s\<close> returns the application unchanged: same state, same trace of effects (no log entry,
  no call on display, LED, decoder, encoder or audio processor), same executor (no barrier
  was taken).
\<close>

theorem SetDeviceState_same_state_noop:
  "SetDeviceState env (device_state s) s = Some s"
  by (simp add: SetDeviceState_def)

theorem SetDeviceState_same_state_noop_witness:
  "SetDeviceState sample_env kDeviceStateIdle sample_app = Some sample_app"
  using SetDeviceState_same_state_noop [of sample_env sample_app]
  by (simp add: sample_app_def)

text \<open>
  C5. A frame delivered to the handler of \<^verbatim>\<open>OnIncomingAudio\<close> is appended to the decode
  queue if and only if the device state is Speaking at that moment; in every other state
  the handler changes nothing.
\<close>

theorem OnIncomingAudio_iff_speaking:
  "(audio_decode_queue (OnIncomingAudio frame s) = audio_decode_queue s @ [frame]
      \<longleftrightarrow> device_state s = kDeviceStateSpeaking)
   \<and> (device_state s \<noteq> kDeviceStateSpeaking \<longrightarrow> OnIncomingAudio frame s = s)
   \<and> (device_state s = kDeviceStateSpeaking \<longrightarrow>
        OnIncomingAudio frame s = s\<lparr>audio_decode_queue := audio_decode_queue s @ [frame]\<rparr>)"
  by (simp add: OnIncomingAudio_def)

theorem OnIncomingAudio_iff_speaking_witness:
  "audio_decode_queue (OnIncomingAudio [1, 2, 3] (in_state kDeviceStateSpeaking sample_app)) = [[1, 2, 3]]
   \<and> OnIncomingAudio [1, 2, 3] (in_state kDeviceStateListening sample_app)
       = in_state kDeviceStateListening sample_app"
  using OnIncomingAudio_iff_speaking [of "[1, 2, 3]" "in_state kDeviceStateSpeaking sample_app"]
        OnIncomingAudio_iff_speaking [of "[1, 2, 3]" "in_state kDeviceStateListening sample_app"]
  by (simp add: in_state_def sample_app_def)

text \<open>
  C6. An output tick that runs in state Listening leaves the decode queue empty: whatever
  was queued is discarded, nothing is handed to the background executor and no effect
  (decode, resample, codec write) happens.
\<close>

theorem OutputAudio_listening_discards:
  "device_state s = kDeviceStateListening \<Longrightarrow>
     OutputAudio env s = s\<lparr>audio_decode_queue := []\<rparr>
     \<and> audio_decode_queue (OutputAudio env s) = []
     \<and> effects (OutputAudio env s) = effects s
     \<and> background_task (OutputAudio env s) = background_task s"
  by (simp add: OutputAudio_def Let_def)

theorem OutputAudio_listening_discards_witness:
  "device_state (in_state kDeviceStateListening (sample_app\<lparr>audio_decode_queue := [[1], [2]]\<rparr>))
     = kDeviceStateListening
   \<and> audio_decode_queue
       (OutputAudio sample_env (in_state kDeviceStateListening (sample_app\<lparr>audio_decode_queue := [[1], [2]]\<rparr>)))
     = []"
  using OutputAudio_listening_discards
          [of "in_state kDeviceStateListening (sample_app\<lparr>audio_decode_queue := [[1], [2]]\<rparr>)" sample_env]
  by (simp add: in_state_def sample_app_def)

text \<open>
  C4, as the claim states it, fails: with the state Idle, an empty decode queue and 10.5 s
  since the last output, the tick does not disable the codec output. The elapsed time is
  cut to whole seconds before it is compared with 10.
\<close>

theorem OutputAudio_silence_10_5_counterexample:
  "device_state (at_time 10500000000 sample_app) = kDeviceStateIdle
   \<and> audio_decode_queue (at_time 10500000000 sample_app) = []
   \<and> steady_now (world (at_time 10500000000 sample_app))
        - last_output_time (at_time 10500000000 sample_app) = 10500000000
   \<and> OutputAudio sample_env (at_time 10500000000 sample_app) = at_time 10500000000 sample_app
   \<and> CodecEnableOutput False \<notin> set (effects (OutputAudio sample_env (at_time 10500000000 sample_app)))"
  by (simp add: OutputAudio_def at_time_def sample_app_def sample_world_def Let_def
                duration_cast_seconds_def max_silence_seconds_def)

text \<open>
  C4, amended. When an output tick runs with an empty decode queue in state Idle, the
  codec output is disabled, by exactly one call \<^verbatim>\<open>EnableOutput(false)\<close>, if and only if at
  least 11 s have passed since the last output (the elapsed time in whole seconds exceeds
  10); otherwise the tick changes nothing.
\<close>

theorem OutputAudio_silence_whole_seconds:
  "audio_decode_queue s = [] \<Longrightarrow> device_state s = kDeviceStateIdle \<Longrightarrow>
     OutputAudio env s =
       (if 11000000000 \<le> steady_now (world s) - last_output_time s
        then s\<lparr>effects := effects s @ [CodecEnableOutput False]\<rparr> else s)"
  by (auto simp add: OutputAudio_def Let_def duration_cast_seconds_def max_silence_seconds_def emit_def)

theorem OutputAudio_silence_whole_seconds_witness:
  "audio_decode_queue (at_time 11000000000 sample_app) = []
   \<and> device_state (at_time 11000000000 sample_app) = kDeviceStateIdle
   \<and> effects (OutputAudio sample_env (at_time 11000000000 sample_app)) = [CodecEnableOutput False]"
  using OutputAudio_silence_whole_seconds [of "at_time 11000000000 sample_app" sample_env]
  by (simp add: at_time_def sample_app_def sample_world_def)



section \<open>The background worker seen from the application\<close>

lemma progress_refl: "background_progress s s"
  unfolding background_progress_def
  by (rule exI[of _ "[]"], rule exI[of _ "[]"], rule exI[of _ "event_bits s"],
      rule exI[of _ "background_task s"]) simp

lemma progress_intro:
  "t = s\<lparr>main_tasks := main_tasks s @ mt, event_bits := eb, background_task := bt,
          effects := effects s @ fx\<rparr> \<Longrightarrow>
   list_all closure_effect fx \<Longrightarrow> list_all send_audio_task mt \<Longrightarrow> background_progress s t"
  unfolding background_progress_def by blast

lemma progress_trans:
  assumes "background_progress s t" "background_progress t u"
  shows "background_progress s u"
proof -
  from assms(1) obtain fx mt eb bt where
    t: "t = s\<lparr>main_tasks := main_tasks s @ mt, event_bits := eb, background_task := bt,
              effects := effects s @ fx\<rparr>"
    and p1: "list_all closure_effect fx" "list_all send_audio_task mt"
    unfolding background_progress_def by blast
  from assms(2) obtain fx' mt' eb' bt' where
    u: "u = t\<lparr>main_tasks := main_tasks t @ mt', event_bits := eb', background_task := bt',
              effects := effects t @ fx'\<rparr>"
    and p2: "list_all closure_effect fx'" "list_all send_audio_task mt'"
    unfolding background_progress_def by blast
  have "u = s\<lparr>main_tasks := main_tasks s @ (mt @ mt'), event_bits := eb', background_task := bt',
              effects := effects s @ (fx @ fx')\<rparr>"
    by (simp add: u t)
  then show ?thesis
    by (rule progress_intro) (use p1 p2 in simp_all)
qed

lemma post_packets_progress:
  "background_progress s (foldl (\<lambda>s' opus. Schedule (SendAudioTask opus) s') s xs)"
proof (induction xs arbitrary: s)
  case Nil
  show ?case by (simp add: progress_refl)
next
  case (Cons x xs)
  have "background_progress s (Schedule (SendAudioTask x) s)"
    by (rule progress_intro[where mt = "[SendAudioTask x]" and fx = "[]"
              and eb = "insert SCHEDULE_EVENT (event_bits s)" and bt = "background_task s"])
       (simp_all add: Schedule_def)
  from progress_trans[OF this Cons.IH] show ?case by simp
qed

lemma emit_closure_progress:
  "closure_effect e \<Longrightarrow> background_progress s (emit e s)"
  by (rule progress_intro[where mt = "[]" and fx = "[e]" and eb = "event_bits s"
              and bt = "background_task s"])
     (simp_all add: emit_def)

lemma closure_body_progress:
  "background_progress s (closure_body env cb s)"
proof (cases cb)
  case (DecodeClosure opus)
  let ?s1 = "emit (DecoderDecode opus) s"
  have d: "background_progress s ?s1"
    by (rule emit_closure_progress) simp
  show ?thesis
  proof (cases "opus_decode env opus")
    case None
    then show ?thesis using DecodeClosure d by (simp add: Let_def)
  next
    case (Some pcm)
    have r: "background_progress ?s1 (emit (OutputResamplerProcess pcm) ?s1)"
      by (rule emit_closure_progress) simp
    have o1: "background_progress (emit (OutputResamplerProcess pcm) ?s1)
                (emit (CodecOutputData (output_resample env pcm)) (emit (OutputResamplerProcess pcm) ?s1))"
      by (rule emit_closure_progress) simp
    have o2: "background_progress ?s1 (emit (CodecOutputData pcm) ?s1)"
      by (rule emit_closure_progress) simp
    show ?thesis
      using DecodeClosure Some progress_trans[OF d progress_trans[OF r o1]] progress_trans[OF d o2]
      by (simp add: Let_def)
  qed
next
  case (EncodeClosure data)
  have e: "background_progress s (emit (EncoderEncode data) s)"
    by (rule emit_closure_progress) simp
  from progress_trans[OF e post_packets_progress] show ?thesis
    using EncodeClosure by simp
qed

lemma closure_body_executor:
  "background_task (closure_body env cb t) = background_task t"
proof -
  have sched: "\<And>xs u. background_task (foldl (\<lambda>s' opus. Schedule (SendAudioTask opus) s') u xs)
                 = background_task u"
  proof -
    fix xs :: "opus_frame list" and u :: app
    show "background_task (foldl (\<lambda>s' opus. Schedule (SendAudioTask opus) s') u xs) = background_task u"
      by (induction xs arbitrary: u) (simp_all add: Schedule_def)
  qed
  show ?thesis
    by (cases cb) (simp_all add: emit_def sched Let_def split: option.splits)
qed

lemma set_executor_progress: "background_progress s (s\<lparr>background_task := bt\<rparr>)"
  by (rule progress_intro[where mt = "[]" and fx = "[]" and eb = "event_bits s" and bt = bt]) simp_all

lemma worker_step_progress: "background_progress s (worker_step env s)"
proof (cases "bg_current (background_task s)")
  case (Some cb)
  have b: "\<And>bt2. background_progress s ((closure_body env cb s)\<lparr>background_task := bt2\<rparr>)"
    using progress_trans[OF closure_body_progress set_executor_progress] .
  show ?thesis using Some b closure_body_progress
    by (simp add: worker_step_def Let_def split: option.splits)
next
  case None
  then show ?thesis
    by (auto simp: worker_step_def set_executor_progress progress_refl split: option.splits)
qed

lemma worker_step_ok:
  "executor_ok (background_task s) \<Longrightarrow> executor_ok (background_task (worker_step env s))"
  by (auto simp: executor_ok_def outstanding_def worker_step_def worker_start_def worker_finish_def
                 worker_take_def closure_body_executor bg_note_def Let_def
           split: option.splits list.splits if_splits)

lemma WaitForCompletion_invariant:
  "WaitForCompletion env s = Some s' \<Longrightarrow> P s \<Longrightarrow> (\<And>t. P t \<Longrightarrow> P (worker_step env t)) \<Longrightarrow>
     P s' \<and> bg_main_tasks (background_task s') = [] \<and> active_tasks (background_task s') = 0"
proof (induction env s rule: WaitForCompletion.induct)
  case (1 env s)
  show ?case
  proof (cases "BackgroundTask_WaitForCompletion (background_task s)")
    case (Some bt)
    with "1.prems"(1) have "s' = s"
      by (subst (asm) WaitForCompletion.simps) simp
    with Some "1.prems"(2) show ?thesis
      by (auto simp: BackgroundTask_WaitForCompletion_def split: if_splits)
  next
    case None
    show ?thesis
    proof (cases "worker_enabled (background_task s)")
      case True
      with None "1.prems"(1) have w: "WaitForCompletion env (worker_step env s) = Some s'"
        by (subst (asm) WaitForCompletion.simps) simp
      have p: "P (worker_step env s)" using "1.prems"(3)[OF "1.prems"(2)] .
      show ?thesis using "1.IH"[OF None True w p "1.prems"(3)] .
    next
      case False
      with None "1.prems"(1) show ?thesis
        by (subst (asm) WaitForCompletion.simps) simp
    qed
  qed
qed

lemma WaitForCompletion_returns:
  "executor_ok (background_task s) \<Longrightarrow> \<exists>s'. WaitForCompletion env s = Some s'"
proof (induction env s rule: WaitForCompletion.induct)
  case (1 env s)
  show ?case
  proof (cases "BackgroundTask_WaitForCompletion (background_task s)")
    case (Some bt)
    then show ?thesis by (subst WaitForCompletion.simps) simp
  next
    case None
    have en: "worker_enabled (background_task s)"
      using None "1.prems"
      by (auto simp: worker_enabled_def BackgroundTask_WaitForCompletion_def executor_ok_def
             outstanding_def worker_start_def worker_take_def split: if_splits list.splits option.splits)
    from "1.IH"[OF None en worker_step_ok[OF "1.prems"]]
    obtain s' where "WaitForCompletion env (worker_step env s) = Some s'" by blast
    then show ?thesis using None en by (subst WaitForCompletion.simps) simp
  qed
qed

lemma WaitForCompletion_barrier:
  assumes ok: "executor_ok (background_task s)"
  shows "\<exists>s'. WaitForCompletion env s = Some s' \<and> background_progress s s'
              \<and> executor_ok (background_task s') \<and> executor_idle (background_task s')"
proof -
  from WaitForCompletion_returns[OF ok] obtain s' where w: "WaitForCompletion env s = Some s'"
    by blast
  have "(background_progress s s' \<and> executor_ok (background_task s'))
        \<and> bg_main_tasks (background_task s') = [] \<and> active_tasks (background_task s') = 0"
  proof (rule WaitForCompletion_invariant[OF w,
           where P = "\<lambda>t. background_progress s t \<and> executor_ok (background_task t)"])
    show "background_progress s s \<and> executor_ok (background_task s)"
      using ok progress_refl by simp
  next
    fix t assume "background_progress s t \<and> executor_ok (background_task t)"
    then show "background_progress s (worker_step env t) \<and> executor_ok (background_task (worker_step env t))"
      using progress_trans[OF _ worker_step_progress] worker_step_ok by blast
  qed
  then have "background_progress s s'" "executor_ok (background_task s')"
            "executor_idle (background_task s')"
    by (auto simp: executor_idle_def executor_ok_def)
  with w show ?thesis by blast
qed

lemma state_switch_effects:
  assumes "protocol_ready s"
  shows "\<exists>s' fx. state_switch env new s = Some s' \<and> effects s' = effects s @ fx
            \<and> list_all side_effect fx \<and> \<not> list_ex warning fx \<and> \<not> list_ex pcm_effect fx
            \<and> device_state s' = device_state s \<and> background_task s' = background_task s
            \<and> aborted s' = aborted s \<and> protocol_ready s' \<and> main_tasks s' = main_tasks s"
  using assms
  by (cases new)
     (auto simp: emit_def ResetDecoder_def UpdateIotStates_def proto_def Let_def)

lemma closure_effect_class: "closure_effect e \<Longrightarrow> \<not> side_effect e \<and> \<not> warning e"
  by (cases e) simp_all


section \<open>Changing the device state\<close>

lemma SetDeviceState_change:
  assumes ne: "device_state s \<noteq> new" and ok: "executor_ok (background_task s)"
    and pr: "protocol_ready s"
  shows "\<exists>s1 s' fx_bg fx_side.
      WaitForCompletion env
        (emit (EspLog LOGI ''STATE: %s'' [ArgS (STATE_STRINGS new)]) (s\<lparr>device_state := new\<rparr>)) = Some s1
    \<and> background_progress (emit (EspLog LOGI ''STATE: %s'' [ArgS (STATE_STRINGS new)]) (s\<lparr>device_state := new\<rparr>)) s1
    \<and> executor_idle (background_task s1)
    \<and> effects s1 = effects s @ [EspLog LOGI ''STATE: %s'' [ArgS (STATE_STRINGS new)]] @ fx_bg
    \<and> list_all closure_effect fx_bg
    \<and> SetDeviceState env new s = Some s'
    \<and> device_state s' = new
    \<and> effects s' = effects s1 @ LedOnStateChanged # fx_side
    \<and> list_all side_effect fx_side \<and> \<not> list_ex warning fx_side \<and> \<not> list_ex pcm_effect fx_side
    \<and> background_task s' = background_task s1
    \<and> aborted s' = aborted s \<and> protocol_ready s' \<and> main_tasks s' = main_tasks s1"
proof -
  let ?s2 = "emit (EspLog LOGI ''STATE: %s'' [ArgS (STATE_STRINGS new)]) (s\<lparr>device_state := new\<rparr>)"
  have ok2: "executor_ok (background_task ?s2)" using ok by (simp add: emit_def)
  from WaitForCompletion_barrier[OF ok2] obtain s1 where
    w: "WaitForCompletion env ?s2 = Some s1" and pg: "background_progress ?s2 s1"
    and idle: "executor_idle (background_task s1)"
    by blast
  from pg obtain fx mt eb bt where
    s1: "s1 = ?s2\<lparr>main_tasks := main_tasks ?s2 @ mt, event_bits := eb, background_task := bt,
                  effects := effects ?s2 @ fx\<rparr>"
    and cl: "list_all closure_effect fx"
    unfolding background_progress_def by blast
  have e1: "effects s1 = effects s @ [EspLog LOGI ''STATE: %s'' [ArgS (STATE_STRINGS new)]] @ fx"
    by (simp add: s1 emit_def)
  have d1: "device_state s1 = new" "aborted s1 = aborted s" "protocol_ready s1"
    using pr by (simp_all add: s1 emit_def)
  let ?s4 = "emit LedOnStateChanged s1"
  have pr4: "protocol_ready ?s4" using d1 by (simp add: emit_def)
  from state_switch_effects[OF pr4, of env new] obtain s' fx_side where
    sw: "state_switch env new ?s4 = Some s'" and e': "effects s' = effects ?s4 @ fx_side"
    and cls: "list_all side_effect fx_side" "\<not> list_ex warning fx_side" "\<not> list_ex pcm_effect fx_side"
    and keep: "device_state s' = device_state ?s4" "background_task s' = background_task ?s4"
              "aborted s' = aborted ?s4" "protocol_ready s'" "main_tasks s' = main_tasks ?s4"
    by blast
  have run: "SetDeviceState env new s = Some s'"
    using ne w sw by (simp add: SetDeviceState_def Let_def)
  have "effects s' = effects s1 @ LedOnStateChanged # fx_side"
    using e' by (simp add: emit_def)
  moreover have "device_state s' = new" "background_task s' = background_task s1"
    "aborted s' = aborted s" "main_tasks s' = main_tasks s1"
    using keep d1 by (simp_all add: emit_def)
  ultimately show ?thesis
    using w pg idle e1 cl run cls keep(4) by blast
qed

text \<open>
  C2. A call \<^verbatim>\<open>SetDeviceState(new)\<close> with \<open>new\<close> different from the current state (on an
  application whose executor's counter is right and whose transport exists) returns, and
  its effects come in this order: the log entry with the name of the new state, written
  with the state already updated; then only effects of background closures, up to a state
  \<open>s1\<close> in which the wait for the executor has returned and nothing is outstanding; then
  the notification of the LED and the effects of the \<^verbatim>\<open>switch\<close>, all of them calls on the
  display, the LED, the decoder, the encoder, the audio processor, the codec's output
  switch or the IoT publication. No such call precedes the barrier.
\<close>

theorem SetDeviceState_barrier_before_side_effects:
  assumes "device_state s \<noteq> new" and "executor_ok (background_task s)" and "protocol_ready s"
  shows "\<exists>s1 s' fx_bg fx_side.
      WaitForCompletion env
        (emit (EspLog LOGI ''STATE: %s'' [ArgS (STATE_STRINGS new)]) (s\<lparr>device_state := new\<rparr>)) = Some s1
    \<and> executor_idle (background_task s1)
    \<and> effects s1 = effects s @ [EspLog LOGI ''STATE: %s'' [ArgS (STATE_STRINGS new)]] @ fx_bg
    \<and> list_all (\<lambda>e. closure_effect e \<and> \<not> side_effect e) fx_bg
    \<and> SetDeviceState env new s = Some s'
    \<and> device_state s' = new
    \<and> effects s' = effects s1 @ LedOnStateChanged # fx_side
    \<and> list_all side_effect fx_side
    \<and> executor_idle (background_task s')"
proof -
  from SetDeviceState_change[OF assms, of env] obtain s1 s' fx_bg fx_side where
    a: "WaitForCompletion env
        (emit (EspLog LOGI ''STATE: %s'' [ArgS (STATE_STRINGS new)]) (s\<lparr>device_state := new\<rparr>)) = Some s1"
      "executor_idle (background_task s1)"
      "effects s1 = effects s @ [EspLog LOGI ''STATE: %s'' [ArgS (STATE_STRINGS new)]] @ fx_bg"
      "list_all closure_effect fx_bg"
      "SetDeviceState env new s = Some s'"
      "device_state s' = new"
      "effects s' = effects s1 @ LedOnStateChanged # fx_side"
      "list_all side_effect fx_side"
      "background_task s' = background_task s1"
    by blast
  have "list_all (\<lambda>e. closure_effect e \<and> \<not> side_effect e) fx_bg"
    using a(4) closure_effect_class by (auto simp: list_all_iff)
  with a show ?thesis by auto
qed


theorem SetDeviceState_barrier_before_side_effects_witness:
  "device_state (with_pending [DecodeClosure [1, 2]] sample_app) \<noteq> kDeviceStateListening
   \<and> executor_ok (background_task (with_pending [DecodeClosure [1, 2]] sample_app))
   \<and> protocol_ready (with_pending [DecodeClosure [1, 2]] sample_app)
   \<and> map_option effects
        (SetDeviceState sample_env kDeviceStateListening (with_pending [DecodeClosure [1, 2]] sample_app))
      = Some [EspLog LOGI ''STATE: %s'' [ArgS ''listening''],
              DecoderDecode [1, 2], CodecOutputData [1, 2],
              LedOnStateChanged, DisplaySetStatus STATUS_LISTENING, DisplaySetEmotion ''neutral'',
              DecoderResetState, CodecEnableOutput True, EncoderResetState, ProtoSendIotStates ''[]'']"
proof -
  have h1: "device_state (with_pending [DecodeClosure [1, 2]] sample_app) \<noteq> kDeviceStateListening"
    by (simp add: with_pending_def background_Schedule_def sample_app_def)
  have h2: "executor_ok (background_task (with_pending [DecodeClosure [1, 2]] sample_app))"
    by (simp add: with_pending_def background_Schedule_def sample_app_def executor_ok_def
                  outstanding_def BackgroundTask_Schedule_def BackgroundTask_new_def bg_note_def Let_def)
  have h3: "protocol_ready (with_pending [DecodeClosure [1, 2]] sample_app)"
    by (simp add: with_pending_def background_Schedule_def sample_app_def)
  from SetDeviceState_barrier_before_side_effects[OF h1 h2 h3, of sample_env] h1 h2 h3
  show ?thesis
    by (simp add: with_pending_def background_Schedule_def sample_app_def sample_env_def
          sample_world_def BackgroundTask_Schedule_def BackgroundTask_new_def bg_note_def
          SetDeviceState_def WaitForCompletion.simps BackgroundTask_WaitForCompletion_def
          worker_enabled_def worker_step_def worker_start_def worker_take_def worker_finish_def
          emit_def ResetDecoder_def UpdateIotStates_def proto_def Let_def)
qed

text \<open>
  C3, as the claim states it, fails: Idle to Speaking is not in the list of legal
  transitions, yet \<^verbatim>\<open>SetDeviceState(Speaking)\<close> in state Idle changes the state and logs
  no warning. The application takes this transition by itself when a \<^verbatim>\<open>tts.start\<close>
  message arrives while it is idle.
\<close>

theorem SetDeviceState_idle_to_speaking_counterexample:
  "device_state sample_app = kDeviceStateIdle
   \<and> \<not> legal_transition kDeviceStateIdle kDeviceStateSpeaking
   \<and> map_option device_state (SetDeviceState sample_env kDeviceStateSpeaking sample_app)
       = Some kDeviceStateSpeaking
   \<and> map_option warnings (SetDeviceState sample_env kDeviceStateSpeaking sample_app) = Some []
   \<and> map_option device_state
         (app_run sample_env [IncomingJson (TtsMessage ''start'' None), MainLoopTurn] sample_app)
       = Some kDeviceStateSpeaking"
  by (simp add: sample_app_def legal_transition_def SetDeviceState_def Let_def emit_def
        BackgroundTask_new_def BackgroundTask_WaitForCompletion_def ResetDecoder_def
        warnings_def sample_env_def WaitForCompletion.simps MainLoop_def Schedule_def)

text \<open>
  C3, amended. \<^verbatim>\<open>SetDeviceState\<close> checks no transition: for every requested state, legal
  in the sense of the list or not, the call returns with the device in the requested state
  and has logged no warning.
\<close>

theorem SetDeviceState_applies_every_request:
  assumes "executor_ok (background_task s)" and "protocol_ready s"
  shows "\<exists>s'. SetDeviceState env new s = Some s' \<and> device_state s' = new \<and> warnings s' = warnings s"
proof (cases "device_state s = new")
  case True
  then show ?thesis by (auto simp: SetDeviceState_def)
next
  case False
  from SetDeviceState_change[OF False assms, of env] obtain s1 :: app and s' fx_bg fx_side where
    a: "effects s1 = effects s @ [EspLog LOGI ''STATE: %s'' [ArgS (STATE_STRINGS new)]] @ fx_bg"
      "list_all closure_effect fx_bg"
      "SetDeviceState env new s = Some s'"
      "device_state s' = new"
      "effects s' = effects s1 @ LedOnStateChanged # fx_side"
      "\<not> list_ex warning fx_side"
    by blast
  have "filter warning fx_bg = []"
    using a(2) closure_effect_class by (auto simp: list_all_iff filter_empty_conv)
  moreover have "filter warning fx_side = []"
    using a(6) by (auto simp: list_ex_iff filter_empty_conv)
  ultimately have "warnings s' = warnings s"
    using a(1,5) by (simp add: warnings_def)
  with a show ?thesis by blast
qed

theorem SetDeviceState_applies_every_request_witness:
  "executor_ok (background_task sample_app) \<and> protocol_ready sample_app
   \<and> \<not> legal_transition (device_state sample_app) kDeviceStateSpeaking
   \<and> map_option device_state (SetDeviceState sample_env kDeviceStateSpeaking sample_app)
       = Some kDeviceStateSpeaking
   \<and> map_option warnings (SetDeviceState sample_env kDeviceStateSpeaking sample_app)
       = Some (warnings sample_app)"
proof -
  have h1: "executor_ok (background_task sample_app)"
    by (simp add: sample_app_def executor_ok_def outstanding_def BackgroundTask_new_def)
  have h2: "protocol_ready sample_app"
    by (simp add: sample_app_def)
  have h3: "\<not> legal_transition (device_state sample_app) kDeviceStateSpeaking"
    by (simp add: sample_app_def legal_transition_def)
  from SetDeviceState_applies_every_request[OF h1 h2, of sample_env kDeviceStateSpeaking] h1 h2 h3
  show ?thesis by auto
qed


section \<open>The local prompt player\<close>

lemma PlayLocalFile_loop_frames:
  "p3_framed env frames \<Longrightarrow>
     PlayLocalFile_loop env (pre @ p3_buffer frames) (length pre) s
       = Some (s\<lparr>audio_decode_queue := audio_decode_queue s @ map snd frames\<rparr>)"
proof (induction frames arbitrary: pre s)
  case Nil
  show ?case
    by (subst PlayLocalFile_loop.simps) (simp add: p3_buffer_def)
next
  case (Cons fr frames)
  obtain hdr payload where fr: "fr = (hdr, payload)" by (cases fr)
  from Cons.prems fr have hd: "p3_header env hdr payload" and rest: "p3_framed env frames"
    by (simp_all add: p3_framed_def)
  from hd have len: "length hdr = p3_size_offset env + 2 + p3_tail env"
    and sz: "ntohs (hdr ! p3_size_offset env) (hdr ! (p3_size_offset env + 1)) = length payload"
    by (simp_all add: p3_header_def sizeof_BinaryProtocol3_def)
  have buf: "pre @ p3_buffer (fr # frames) = (pre @ hdr @ payload) @ p3_buffer frames"
    by (simp add: p3_buffer_def fr)
  have b0: "(pre @ p3_buffer (fr # frames)) ! (length pre + p3_size_offset env) = hdr ! p3_size_offset env"
    using len by (simp add: p3_buffer_def fr nth_append)
  have b1: "(pre @ p3_buffer (fr # frames)) ! (length pre + p3_size_offset env + 1)
              = hdr ! (p3_size_offset env + 1)"
    using len by (simp add: p3_buffer_def fr nth_append)
  have tk: "take (length payload) (drop (length pre + sizeof_BinaryProtocol3 env) (pre @ p3_buffer (fr # frames)))
              = payload"
    using len by (simp add: p3_buffer_def fr sizeof_BinaryProtocol3_def)
  have IH: "PlayLocalFile_loop env ((pre @ hdr @ payload) @ p3_buffer frames) (length (pre @ hdr @ payload))
              (s\<lparr>audio_decode_queue := audio_decode_queue s @ [payload]\<rparr>)
            = Some (s\<lparr>audio_decode_queue := audio_decode_queue s @ [payload] @ map snd frames\<rparr>)"
    using Cons.IH[OF rest, of "pre @ hdr @ payload" "s\<lparr>audio_decode_queue := audio_decode_queue s @ [payload]\<rparr>"]
    by simp
  have pos: "length (pre @ hdr @ payload) = length pre + sizeof_BinaryProtocol3 env + length payload"
    using len by (simp add: sizeof_BinaryProtocol3_def)
  have lt: "length pre < length (pre @ p3_buffer (fr # frames))"
    using len by (simp add: p3_buffer_def fr)
  have hdr_in: "length pre + p3_size_offset env + 2 \<le> length (pre @ p3_buffer (fr # frames))"
    using len by (simp add: p3_buffer_def fr)
  have pl_in: "length pre + sizeof_BinaryProtocol3 env + length payload \<le> length (pre @ p3_buffer (fr # frames))"
    using len by (simp add: p3_buffer_def fr sizeof_BinaryProtocol3_def)
  have step: "PlayLocalFile_loop env (pre @ p3_buffer (fr # frames)) (length pre) s
          = PlayLocalFile_loop env (pre @ p3_buffer (fr # frames))
              (length pre + sizeof_BinaryProtocol3 env + length payload)
              (s\<lparr>audio_decode_queue := audio_decode_queue s @ [payload]\<rparr>)"
    by (subst PlayLocalFile_loop.simps)
       (simp only: lt hdr_in if_True b0 b1 sz Let_def pl_in tk simp_thms)
  have "PlayLocalFile_loop env (pre @ p3_buffer (fr # frames)) (length pre) s
          = PlayLocalFile_loop env ((pre @ hdr @ payload) @ p3_buffer frames) (length (pre @ hdr @ payload))
              (s\<lparr>audio_decode_queue := audio_decode_queue s @ [payload]\<rparr>)"
    using step by (simp only: buf pos)
  also note IH
  finally show ?case
    by (simp add: fr)
qed

text \<open>
  C8. For every buffer that is the concatenation of \<open>N\<close> framed records, whatever the
  layout of the fixed header around its big-endian \<^verbatim>\<open>payload_size\<close>, \<^verbatim>\<open>PlayLocalFile\<close>
  returns, has first set the decode sample rate to 16000 (the state from which the records
  are enqueued is the one \<^verbatim>\<open>SetDecodeSampleRate(16000)\<close> leaves), and has appended to the
  decode queue exactly the \<open>N\<close> payloads, in the order of the buffer, each of the size its
  header declares.
\<close>

theorem PlayLocalFile_enqueues_frames:
  assumes "p3_framed env frames"
  shows "PlayLocalFile env (p3_buffer frames) s
           = Some ((SetDecodeSampleRate env 16000
                      (emit (EspLog LOGI ''PlayLocalFile: %zu bytes'' [ArgN (length (p3_buffer frames))]) s))
                     \<lparr>audio_decode_queue := audio_decode_queue s @ map snd frames\<rparr>)
       \<and> (\<forall>s'. PlayLocalFile env (p3_buffer frames) s = Some s' \<longrightarrow>
             opus_decode_sample_rate s' = 16000
           \<and> audio_decode_queue s' = audio_decode_queue s @ map snd frames
           \<and> length (audio_decode_queue s') = length (audio_decode_queue s) + length frames
           \<and> map length (map snd frames) = map (declared_size env) (map fst frames))"
proof -
  let ?s2 = "SetDecodeSampleRate env 16000
               (emit (EspLog LOGI ''PlayLocalFile: %zu bytes'' [ArgN (length (p3_buffer frames))]) s)"
  have q: "audio_decode_queue ?s2 = audio_decode_queue s"
    by (simp add: SetDecodeSampleRate_def emit_def Let_def)
  have r: "opus_decode_sample_rate ?s2 = 16000"
    by (simp add: SetDecodeSampleRate_def emit_def Let_def)
  have run: "PlayLocalFile env (p3_buffer frames) s
           = Some (?s2\<lparr>audio_decode_queue := audio_decode_queue s @ map snd frames\<rparr>)"
    using PlayLocalFile_loop_frames[OF assms, of "[]" ?s2] q
    by (simp add: PlayLocalFile_def Let_def)
  have sizes: "map length (map snd frames) = map (declared_size env) (map fst frames)"
    using assms by (induction frames) (auto simp: p3_framed_def p3_header_def declared_size_def)
  show ?thesis using run r sizes by simp
qed

theorem PlayLocalFile_enqueues_frames_witness:
  "p3_framed sample_env s5_frames
   \<and> map_option opus_decode_sample_rate (PlayLocalFile sample_env (p3_buffer s5_frames) sample_app) = Some 16000
   \<and> map_option audio_decode_queue (PlayLocalFile sample_env (p3_buffer s5_frames) sample_app)
       = Some [replicate 320 7, replicate 280 9]
   \<and> map length [replicate 320 (7::byte), replicate 280 9] = [320, 280]"
proof -
  have f: "p3_framed sample_env s5_frames"
    by (simp add: p3_framed_def p3_header_def s5_frames_def sample_env_def sizeof_BinaryProtocol3_def
                  ntohs_def)
  from PlayLocalFile_enqueues_frames[OF f, of sample_app] f show ?thesis
    by (simp add: s5_frames_def sample_app_def SetDecodeSampleRate_def emit_def Let_def)
qed

lemma PlayLocalFile_loop_device_state:
  "PlayLocalFile_loop env buf p (s\<lparr>device_state := d\<rparr>)
     = map_option (\<lambda>t. t\<lparr>device_state := d\<rparr>) (PlayLocalFile_loop env buf p s)"
proof (induction env buf p s rule: PlayLocalFile_loop.induct)
  case (1 env buf p s)
  let ?n = "ntohs (buf ! (p + p3_size_offset env)) (buf ! (p + p3_size_offset env + 1))"
  let ?q = "p + sizeof_BinaryProtocol3 env"
  show ?case
  proof (cases "p < length buf \<and> p + p3_size_offset env + 2 \<le> length buf
                \<and> (?n = 0 \<or> ?q + ?n \<le> length buf)")
    case True
    have swap: "(s\<lparr>device_state := d\<rparr>)\<lparr>audio_decode_queue :=
                   audio_decode_queue (s\<lparr>device_state := d\<rparr>) @ [take ?n (drop ?q buf)]\<rparr>
                = (s\<lparr>audio_decode_queue := audio_decode_queue s @ [take ?n (drop ?q buf)]\<rparr>)\<lparr>device_state := d\<rparr>"
      by simp
    have ih: "PlayLocalFile_loop env buf (?q + ?n)
                ((s\<lparr>audio_decode_queue := audio_decode_queue s @ [take ?n (drop ?q buf)]\<rparr>)\<lparr>device_state := d\<rparr>)
              = map_option (\<lambda>t. t\<lparr>device_state := d\<rparr>)
                  (PlayLocalFile_loop env buf (?q + ?n)
                     (s\<lparr>audio_decode_queue := audio_decode_queue s @ [take ?n (drop ?q buf)]\<rparr>))"
      using True by (intro "1.IH"[OF _ _ refl refl]) auto
    have l: "PlayLocalFile_loop env buf p (s\<lparr>device_state := d\<rparr>)
              = PlayLocalFile_loop env buf (?q + ?n)
                  ((s\<lparr>device_state := d\<rparr>)\<lparr>audio_decode_queue :=
                     audio_decode_queue (s\<lparr>device_state := d\<rparr>) @ [take ?n (drop ?q buf)]\<rparr>)"
      using True by (subst PlayLocalFile_loop.simps) (simp add: Let_def)
    have r: "PlayLocalFile_loop env buf p s
              = PlayLocalFile_loop env buf (?q + ?n)
                  (s\<lparr>audio_decode_queue := audio_decode_queue s @ [take ?n (drop ?q buf)]\<rparr>)"
      using True by (subst PlayLocalFile_loop.simps) (simp add: Let_def)
    show ?thesis by (simp only: l r swap ih)
  next
    case False
    have l: "PlayLocalFile_loop env buf p (s\<lparr>device_state := d\<rparr>)
               = (if p < length buf then None else Some (s\<lparr>device_state := d\<rparr>))"
      using False by (subst PlayLocalFile_loop.simps) (auto simp: Let_def)
    have r: "PlayLocalFile_loop env buf p s = (if p < length buf then None else Some s)"
      using False by (subst PlayLocalFile_loop.simps) (auto simp: Let_def)
    show ?thesis by (simp add: l r)
  qed
qed

text \<open>
  C10. \<^verbatim>\<open>PlayLocalFile\<close> never looks at the device state: running it in device state \<open>d\<close>
  gives what running it in any other state gives, with \<open>d\<close> put back; so in every state,
  Speaking or not, the payloads of a framed buffer are appended to the decode queue and the
  device state is left as it was, whereas the handler of \<^verbatim>\<open>OnIncomingAudio\<close> leaves the
  queue alone in every state but Speaking.
\<close>

theorem PlayLocalFile_ignores_device_state:
  "PlayLocalFile env buf (in_state d s) = map_option (in_state d) (PlayLocalFile env buf s)
   \<and> (p3_framed env frames \<longrightarrow>
        map_option audio_decode_queue (PlayLocalFile env (p3_buffer frames) (in_state d s))
          = Some (audio_decode_queue s @ map snd frames)
        \<and> map_option device_state (PlayLocalFile env (p3_buffer frames) (in_state d s)) = Some d)
   \<and> (d \<noteq> kDeviceStateSpeaking \<longrightarrow>
        audio_decode_queue (OnIncomingAudio frame (in_state d s)) = audio_decode_queue s)"
proof -
  have ind: "PlayLocalFile env buf (in_state d s) = map_option (in_state d) (PlayLocalFile env buf s)"
  proof -
    let ?pre = "\<lambda>t. SetDecodeSampleRate env 16000
                     (emit (EspLog LOGI ''PlayLocalFile: %zu bytes'' [ArgN (length buf)]) t)"
    have c: "?pre (s\<lparr>device_state := d\<rparr>) = (?pre s)\<lparr>device_state := d\<rparr>"
      by (simp add: SetDecodeSampleRate_def emit_def Let_def)
    have f: "in_state d = (\<lambda>t. t\<lparr>device_state := d\<rparr>)"
      by (rule ext) (simp add: in_state_def)
    show ?thesis
      unfolding PlayLocalFile_def Let_def f
      by (simp only: c PlayLocalFile_loop_device_state)
  qed
  have fr: "p3_framed env frames \<longrightarrow>
        map_option audio_decode_queue (PlayLocalFile env (p3_buffer frames) (in_state d s))
          = Some (audio_decode_queue s @ map snd frames)
        \<and> map_option device_state (PlayLocalFile env (p3_buffer frames) (in_state d s)) = Some d"
  proof
    assume w: "p3_framed env frames"
    let ?s2 = "SetDecodeSampleRate env 16000
                 (emit (EspLog LOGI ''PlayLocalFile: %zu bytes'' [ArgN (length (p3_buffer frames))])
                    (in_state d s))"
    have q: "audio_decode_queue ?s2 = audio_decode_queue s" "device_state ?s2 = d"
      by (simp_all add: SetDecodeSampleRate_def emit_def in_state_def Let_def)
    have "PlayLocalFile env (p3_buffer frames) (in_state d s)
            = Some (?s2\<lparr>audio_decode_queue := audio_decode_queue ?s2 @ map snd frames\<rparr>)"
      using PlayLocalFile_loop_frames[OF w, of "[]" ?s2]
      by (simp add: PlayLocalFile_def Let_def)
    then show "map_option audio_decode_queue (PlayLocalFile env (p3_buffer frames) (in_state d s))
          = Some (audio_decode_queue s @ map snd frames)
        \<and> map_option device_state (PlayLocalFile env (p3_buffer frames) (in_state d s)) = Some d"
      using q by simp
  qed
  have inc: "d \<noteq> kDeviceStateSpeaking \<longrightarrow>
        audio_decode_queue (OnIncomingAudio frame (in_state d s)) = audio_decode_queue s"
    by (simp add: OnIncomingAudio_def in_state_def)
  from ind fr inc show ?thesis by blast
qed

theorem PlayLocalFile_ignores_device_state_witness:
  "p3_framed sample_env s5_frames
   \<and> map_option audio_decode_queue
        (PlayLocalFile sample_env (p3_buffer s5_frames) (in_state kDeviceStateStarting sample_app))
       = Some [replicate 320 7, replicate 280 9]
   \<and> audio_decode_queue (OnIncomingAudio (replicate 320 7) (in_state kDeviceStateStarting sample_app)) = []"
proof -
  have f: "p3_framed sample_env s5_frames"
    by (simp add: p3_framed_def p3_header_def s5_frames_def sample_env_def sizeof_BinaryProtocol3_def
                  ntohs_def)
  have n: "kDeviceStateStarting \<noteq> kDeviceStateSpeaking" by simp
  note t = PlayLocalFile_ignores_device_state
             [of sample_env "p3_buffer s5_frames" kDeviceStateStarting sample_app s5_frames
                 "replicate 320 7"]
  from t f have q: "map_option audio_decode_queue
        (PlayLocalFile sample_env (p3_buffer s5_frames) (in_state kDeviceStateStarting sample_app))
       = Some (audio_decode_queue sample_app @ map snd s5_frames)"
    by blast
  from t n have o: "audio_decode_queue (OnIncomingAudio (replicate 320 7) (in_state kDeviceStateStarting sample_app))
                     = audio_decode_queue sample_app"
    by blast
  have e1: "audio_decode_queue sample_app @ map snd s5_frames = [replicate 320 7, replicate 280 9]"
    by (simp add: sample_app_def s5_frames_def)
  have e2: "audio_decode_queue sample_app = []"
    by (simp add: sample_app_def)
  from f q[unfolded e1] o[unfolded e2] show ?thesis by (intro conjI)
qed



section \<open>Abort: what still reaches the codec\<close>

lemma codec_pcm_emit:
  "codec_pcm (emit e s) = codec_pcm s @ (case e of CodecOutputData pcm \<Rightarrow> [pcm] | _ \<Rightarrow> [])"
  by (simp add: codec_pcm_def emit_def)

lemma codec_pcm_emit_quiet: "\<not> pcm_effect e \<Longrightarrow> codec_pcm (emit e s) = codec_pcm s"
  by (cases e) (simp_all add: codec_pcm_emit)

lemma abort_inv_emit [simp]: "\<not> pcm_effect e \<Longrightarrow> abort_inv P x (emit e s) = abort_inv P x s"
proof -
  assume q: "\<not> pcm_effect e"
  have "aborted (emit e s) = aborted s" "protocol_ready (emit e s) = protocol_ready s"
       "background_task (emit e s) = background_task s" "main_tasks (emit e s) = main_tasks s"
    by (simp_all add: emit_def)
  then show ?thesis
    by (simp add: abort_inv_def decode_in_flight_def codec_pcm_emit_quiet[OF q])
qed

lemma abort_inv_fields [simp]:
  "abort_inv P x (s\<lparr>device_state := d\<rparr>) = abort_inv P x s"
  "abort_inv P x (s\<lparr>keep_listening := k\<rparr>) = abort_inv P x s"
  "abort_inv P x (s\<lparr>voice_detected := v\<rparr>) = abort_inv P x s"
  "abort_inv P x (s\<lparr>audio_decode_queue := q\<rparr>) = abort_inv P x s"
  "abort_inv P x (s\<lparr>last_output_time := l\<rparr>) = abort_inv P x s"
  "abort_inv P x (s\<lparr>opus_decode_sample_rate := r\<rparr>) = abort_inv P x s"
  "abort_inv P x (s\<lparr>last_iot_states := i\<rparr>) = abort_inv P x s"
  "abort_inv P x (s\<lparr>event_bits := b\<rparr>) = abort_inv P x s"
  "abort_inv P x (s\<lparr>world := w\<rparr>) = abort_inv P x s"
  by (simp_all add: abort_inv_def decode_in_flight_def codec_pcm_def)

lemma abort_inv_Schedule:
  "c \<noteq> TtsStartTask \<Longrightarrow> abort_inv P x s \<Longrightarrow> abort_inv P x (Schedule c s)"
  by (auto simp: abort_inv_def decode_in_flight_def codec_pcm_def Schedule_def)

lemma bg_current_Schedule: "bg_current (BackgroundTask_Schedule cb bt) = bg_current bt"
  by (simp add: BackgroundTask_Schedule_def bg_note_def Let_def)

lemma abort_inv_background_Schedule:
  "abort_inv P x s \<Longrightarrow> abort_inv P x (background_Schedule cb s)"
  by (simp add: abort_inv_def decode_in_flight_def codec_pcm_def background_Schedule_def
        executor_ok_def outstanding_Schedule active_tasks_Schedule bg_current_Schedule)

lemma closure_body_decode_pcm:
  "codec_pcm (closure_body env (DecodeClosure opus) s) = codec_pcm s
   \<or> (\<exists>b. codec_pcm (closure_body env (DecodeClosure opus) s) = codec_pcm s @ [b])"
  by (auto simp: codec_pcm_emit Let_def split: option.splits)

lemma closure_body_encode_pcm:
  "codec_pcm (closure_body env (EncodeClosure data) s) = codec_pcm s"
proof -
  have "\<And>t xs. codec_pcm (foldl (\<lambda>s' opus. Schedule (SendAudioTask opus) s') t xs) = codec_pcm t"
  proof -
    fix t :: app and xs :: "opus_frame list"
    show "codec_pcm (foldl (\<lambda>s' opus. Schedule (SendAudioTask opus) s') t xs) = codec_pcm t"
      by (induction xs arbitrary: t) (simp_all add: Schedule_def codec_pcm_def)
  qed
  then show ?thesis by (simp add: codec_pcm_emit)
qed

lemma closure_body_decode_main_tasks:
  "main_tasks (closure_body env (DecodeClosure opus) s) = main_tasks s"
  by (simp add: emit_def Let_def split: option.splits)

lemma progress_keeps:
  assumes "background_progress s t"
  shows "aborted t = aborted s" "protocol_ready t = protocol_ready s"
        "TtsStartTask \<notin> set (main_tasks s) \<Longrightarrow> TtsStartTask \<notin> set (main_tasks t)"
proof -
  from assms obtain fx mt eb bt where
    t: "t = s\<lparr>main_tasks := main_tasks s @ mt, event_bits := eb, background_task := bt,
              effects := effects s @ fx\<rparr>"
    and mt: "list_all send_audio_task mt"
    unfolding background_progress_def by blast
  show "aborted t = aborted s" "protocol_ready t = protocol_ready s" by (simp_all add: t)
  have "TtsStartTask \<notin> set mt" using mt by (auto simp: list_all_iff)
  then show "TtsStartTask \<notin> set (main_tasks s) \<Longrightarrow> TtsStartTask \<notin> set (main_tasks t)"
    by (simp add: t)
qed

lemma worker_step_pcm:
  assumes "aborted s"
  shows "\<not> decode_in_flight (worker_step env s)
         \<and> (codec_pcm (worker_step env s) = codec_pcm s
            \<or> (decode_in_flight s \<and> (\<exists>b. codec_pcm (worker_step env s) = codec_pcm s @ [b])))"
proof (cases "bg_current (background_task s)")
  case (Some cb)
  have fin: "\<exists>bt2. worker_finish (background_task (closure_body env cb s)) = Some bt2
                    \<and> bg_current bt2 = None"
    using Some by (auto simp: worker_finish_def closure_body_executor bg_note_def Let_def)
  then obtain bt2 where bt2: "worker_finish (background_task (closure_body env cb s)) = Some bt2"
    "bg_current bt2 = None" by blast
  have ws: "worker_step env s = (closure_body env cb s)\<lparr>background_task := bt2\<rparr>"
    using Some bt2 by (simp add: worker_step_def Let_def)
  have nf: "\<not> decode_in_flight (worker_step env s)"
    by (simp add: ws decode_in_flight_def bt2)
  have pc: "codec_pcm (worker_step env s) = codec_pcm (closure_body env cb s)"
    by (simp add: ws codec_pcm_def)
  show ?thesis
  proof (cases cb)
    case (DecodeClosure opus)
    then have "decode_in_flight s" using Some by (simp add: decode_in_flight_def)
    with nf pc closure_body_decode_pcm[of env opus s] DecodeClosure show ?thesis by auto
  next
    case (EncodeClosure data)
    with nf pc closure_body_encode_pcm[of env data s] show ?thesis by simp
  qed
next
  case None
  show ?thesis
  proof (cases "worker_start (background_task s)")
    case nostart: None
    with None show ?thesis
      by (auto simp: worker_step_def worker_take_def decode_in_flight_def codec_pcm_def
               split: option.splits if_splits)
  next
    case (Some p)
    obtain cb bt1 where p: "p = (cb, bt1)" by (cases p)
    have cur: "bg_current bt1 = Some cb"
      using Some p by (auto simp: worker_start_def split: option.splits list.splits)
    show ?thesis
    proof (cases "closure_enters cb s")
      case True
      with assms have "\<not> decode_closure cb" by (cases cb) simp_all
      with None Some p True cur show ?thesis
        by (simp add: worker_step_def decode_in_flight_def codec_pcm_def)
    next
      case False
      have "\<exists>bt2. worker_finish bt1 = Some bt2 \<and> bg_current bt2 = None"
        using cur by (auto simp: worker_finish_def bg_note_def Let_def)
      with None Some p False show ?thesis
        by (auto simp: worker_step_def decode_in_flight_def codec_pcm_def)
    qed
  qed
qed

lemma abort_inv_worker_step:
  assumes "abort_inv P x s"
  shows "abort_inv P x (worker_step env s)"
proof -
  from assms have ab: "aborted s" and pr: "protocol_ready s"
    and ok: "executor_ok (background_task s)" and nt: "TtsStartTask \<notin> set (main_tasks s)"
    and pcm: "(codec_pcm s = P \<and> (decode_in_flight s \<longrightarrow> x))
        \<or> (x \<and> (\<exists>b. codec_pcm s = P @ [b]) \<and> \<not> decode_in_flight s)"
    by (simp_all add: abort_inv_def)
  note k = progress_keeps[OF worker_step_progress[of s env]]
  from worker_step_pcm[OF ab, of env] pcm
  have "(codec_pcm (worker_step env s) = P \<and> (decode_in_flight (worker_step env s) \<longrightarrow> x))
        \<or> (x \<and> (\<exists>b. codec_pcm (worker_step env s) = P @ [b]) \<and> \<not> decode_in_flight (worker_step env s))"
    by auto
  with k(1) k(2) k(3)[OF nt] ab pr worker_step_ok[OF ok, of env] show ?thesis
    by (simp add: abort_inv_def)
qed


lemma rw_Some: "I s \<Longrightarrow> returns_with I (Some s)"
  by (simp add: returns_with_def)

lemma rw_bind:
  "returns_with I m \<Longrightarrow> (\<And>s1. I s1 \<Longrightarrow> returns_with I (g s1)) \<Longrightarrow> returns_with I (Option.bind m g)"
  by (auto simp: returns_with_def)

lemma rw_if:
  "(c \<Longrightarrow> returns_with I a) \<Longrightarrow> (\<not> c \<Longrightarrow> returns_with I b) \<Longrightarrow> returns_with I (if c then a else b)"
  by simp

lemma rw_proto:
  "abort_inv P x s \<Longrightarrow> \<not> pcm_effect e \<Longrightarrow> returns_with (abort_inv P x) (proto e s)"
  by (simp add: proto_def returns_with_def) (simp add: abort_inv_def)

lemma rw_WaitForCompletion:
  assumes "abort_inv P x s"
  shows "returns_with (abort_inv P x) (WaitForCompletion env s)"
proof -
  from assms have "executor_ok (background_task s)" by (simp add: abort_inv_def)
  from WaitForCompletion_returns[OF this] obtain s' where w: "WaitForCompletion env s = Some s'"
    by blast
  from WaitForCompletion_invariant[OF w, where P = "abort_inv P x"] assms abort_inv_worker_step
  have "abort_inv P x s'" by blast
  with w show ?thesis by (simp add: returns_with_def)
qed

lemma abort_inv_ResetDecoder: "abort_inv P x (ResetDecoder s) = abort_inv P x s"
  by (simp add: ResetDecoder_def Let_def)

lemma rw_UpdateIotStates:
  "abort_inv P x s \<Longrightarrow> returns_with (abort_inv P x) (UpdateIotStates s)"
  by (simp add: UpdateIotStates_def Let_def rw_proto rw_Some)

lemma rw_state_switch:
  "abort_inv P x s \<Longrightarrow> returns_with (abort_inv P x) (state_switch env d s)"
  by (cases d) (simp_all add: Let_def abort_inv_ResetDecoder rw_Some rw_UpdateIotStates)

lemma rw_SetDeviceState:
  assumes "abort_inv P x s"
  shows "returns_with (abort_inv P x) (SetDeviceState env d s)"
proof (cases "device_state s = d")
  case True
  with assms show ?thesis by (simp add: SetDeviceState_def rw_Some)
next
  case False
  let ?s2 = "emit (EspLog LOGI ''STATE: %s'' [ArgS (STATE_STRINGS d)]) (s\<lparr>device_state := d\<rparr>)"
  have "abort_inv P x ?s2" using assms by simp
  from rw_WaitForCompletion[OF this, of env] obtain s3 where
    w: "WaitForCompletion env ?s2 = Some s3" and i3: "abort_inv P x s3"
    by (auto simp: returns_with_def)
  have "abort_inv P x (emit LedOnStateChanged s3)" using i3 by simp
  from rw_state_switch[OF this, of env d] False w show ?thesis
    by (simp add: SetDeviceState_def Let_def)
qed

lemma rw_AbortSpeaking:
  "abort_inv P x s \<Longrightarrow> returns_with (abort_inv P x) (AbortSpeaking reason s)"
proof -
  assume i: "abort_inv P x s"
  then have "aborted s" by (simp add: abort_inv_def)
  then have "(emit (EspLog LOGI ''Abort speaking'' []) s)\<lparr>aborted := True\<rparr>
               = emit (EspLog LOGI ''Abort speaking'' []) s"
    by (simp add: emit_def)
  with i show ?thesis
    by (simp add: AbortSpeaking_def Let_def rw_proto)
qed

lemma abort_inv_SetDecodeSampleRate:
  "abort_inv P x (SetDecodeSampleRate env r s) = abort_inv P x s"
  by (simp add: SetDecodeSampleRate_def Let_def)

lemma rw_PlayLocalFile:
  assumes "p3_framed env frames" and "abort_inv P x s"
  shows "returns_with (abort_inv P x) (PlayLocalFile env (p3_buffer frames) s)"
proof -
  let ?s2 = "SetDecodeSampleRate env 16000
               (emit (EspLog LOGI ''PlayLocalFile: %zu bytes'' [ArgN (length (p3_buffer frames))]) s)"
  have i2: "abort_inv P x ?s2" using assms(2) by (simp add: abort_inv_SetDecodeSampleRate)
  have "PlayLocalFile env (p3_buffer frames) s
          = Some (?s2\<lparr>audio_decode_queue := audio_decode_queue ?s2 @ map snd frames\<rparr>)"
    using PlayLocalFile_loop_frames[OF assms(1), of "[]" ?s2]
    by (simp add: PlayLocalFile_def Let_def)
  with i2 show ?thesis by (simp add: returns_with_def)
qed

lemma rw_Alert:
  assumes "prompts_framed env" and "abort_inv P x s"
  shows "returns_with (abort_inv P x) (Alert env title message s)"
proof -
  from assms(1) obtain f1 f2 f3 where
    f: "p3_framed env f1" "p3_err_pin env = p3_buffer f1"
       "p3_framed env f2" "p3_err_wificonfig env = p3_buffer f2"
       "p3_framed env f3" "p3_err_reg env = p3_buffer f3"
    unfolding prompts_framed_def by blast
  let ?s2 = "emit (DisplayShowNotification message) (emit (EspLog LOGW ''Alert: %s, %s'' [ArgS title, ArgS message]) s)"
  have i2: "abort_inv P x ?s2" using assms(2) by simp
  show ?thesis
    unfolding Alert_def Let_def
    using rw_PlayLocalFile[OF f(1) i2] rw_PlayLocalFile[OF f(3) i2] rw_PlayLocalFile[OF f(5) i2]
          rw_Some[of "abort_inv P x", OF i2]
    by (simp only: f(2,4,6) split: if_split) simp
qed

lemma rw_listen_manual:
  "abort_inv P x s \<Longrightarrow> returns_with (abort_inv P x) (listen_manual env s)"
  unfolding listen_manual_def
  by (intro rw_bind rw_proto rw_SetDeviceState) simp_all

lemma rw_send_wake_word_opus:
  "abort_inv P x s \<Longrightarrow> returns_with (abort_inv P x) (send_wake_word_opus frames s)"
proof (induction frames arbitrary: s)
  case Nil
  then show ?case by (simp add: rw_Some)
next
  case (Cons f frames)
  show ?case
    by (simp, intro rw_bind rw_proto Cons.prems Cons.IH) simp_all
qed

lemma rw_run_main_closure:
  assumes pf: "prompts_framed env" and nt: "c \<noteq> TtsStartTask" and i: "abort_inv P x s"
  shows "returns_with (abort_inv P x) (run_main_closure env c s)"
proof (cases c)
  case ToggleChatStateTask
  show ?thesis
    unfolding ToggleChatStateTask run_main_closure.simps
    by (intro rw_if rw_bind rw_Some rw_proto rw_SetDeviceState rw_AbortSpeaking rw_Alert[OF pf])
       (use i in simp_all)
next
  case StartListeningTask
  show ?thesis
    unfolding StartListeningTask run_main_closure.simps Let_def
    by (intro rw_if rw_bind rw_Some rw_proto rw_SetDeviceState rw_AbortSpeaking rw_Alert[OF pf]
              rw_listen_manual)
       (use i in simp_all)
next
  case StopListeningTask
  show ?thesis
    unfolding StopListeningTask run_main_closure.simps
    by (intro rw_if rw_bind rw_Some rw_proto rw_SetDeviceState) (use i in simp_all)
next
  case (SendAudioTask opus)
  show ?thesis
    unfolding SendAudioTask run_main_closure.simps
    by (intro rw_proto) (use i in simp_all)
next
  case (VadStateChangeTask speaking)
  show ?thesis
    unfolding VadStateChangeTask run_main_closure.simps
    by (intro rw_if rw_Some) (use i in simp_all)
next
  case (WakeWordDetectedTask wake_word)
  show ?thesis
    unfolding WakeWordDetectedTask run_main_closure.simps
    by (intro rw_if rw_bind rw_Some rw_proto rw_SetDeviceState rw_AbortSpeaking
              rw_send_wake_word_opus)
       (use i in simp_all)
next
  case AudioChannelClosedTask
  show ?thesis
    unfolding AudioChannelClosedTask run_main_closure.simps
    by (intro rw_SetDeviceState) (use i in simp_all)
next
  case TtsStartTask
  with nt show ?thesis by simp
next
  case TtsStopTask
  show ?thesis
    unfolding TtsStopTask run_main_closure.simps
    by (intro rw_if rw_bind rw_Some rw_proto rw_SetDeviceState rw_WaitForCompletion)
       (use i in simp_all)
qed


lemma rw_run_main_tasks:
  assumes pf: "prompts_framed env"
  shows "TtsStartTask \<notin> set tasks \<Longrightarrow> abort_inv P x s \<Longrightarrow>
           returns_with (abort_inv P x) (run_main_tasks env tasks s)"
proof (induction tasks arbitrary: s)
  case Nil
  then show ?case by (simp add: rw_Some)
next
  case (Cons c tasks)
  from Cons.prems have c: "c \<noteq> TtsStartTask" and r: "TtsStartTask \<notin> set tasks" by auto
  show ?case
    by (simp, intro rw_bind rw_run_main_closure[OF pf c] Cons.prems Cons.IH[OF r])
qed

lemma abort_inv_OutputAudio: "abort_inv P x s \<Longrightarrow> abort_inv P x (OutputAudio env s)"
  by (simp add: OutputAudio_def Let_def abort_inv_background_Schedule)

lemma abort_inv_InputAudio: "abort_inv P x s \<Longrightarrow> abort_inv P x (InputAudio env s)"
  by (simp add: InputAudio_def Let_def abort_inv_background_Schedule split: option.splits)

lemma abort_inv_main_tasks_reset:
  "abort_inv P x s \<Longrightarrow> abort_inv P x (s\<lparr>main_tasks := []\<rparr>)"
  by (simp add: abort_inv_def decode_in_flight_def codec_pcm_def)

lemma main_tasks_OutputAudio: "main_tasks (OutputAudio env s) = main_tasks s"
  by (simp add: OutputAudio_def Let_def background_Schedule_def emit_def)

lemma main_tasks_InputAudio: "main_tasks (InputAudio env s) = main_tasks s"
  by (simp add: InputAudio_def Let_def background_Schedule_def emit_def split: option.splits)

lemma rw_MainLoop:
  assumes pf: "prompts_framed env" and i: "abort_inv P x s"
  shows "returns_with (abort_inv P x) (MainLoop env s)"
proof (cases "event_bits s = {}")
  case True
  with i show ?thesis by (simp add: MainLoop_def rw_Some)
next
  case False
  let ?s0 = "s\<lparr>event_bits := {}\<rparr>"
  let ?s1 = "if AUDIO_INPUT_READY_EVENT \<in> event_bits s then InputAudio env ?s0 else ?s0"
  let ?s2 = "if AUDIO_OUTPUT_READY_EVENT \<in> event_bits s then OutputAudio env ?s1 else ?s1"
  have i0: "abort_inv P x ?s0" using i by simp
  have i1: "abort_inv P x ?s1" using i0 abort_inv_InputAudio by simp
  have i2: "abort_inv P x ?s2" using i1 abort_inv_OutputAudio by simp
  have mt: "main_tasks ?s2 = main_tasks s"
    by (simp add: main_tasks_OutputAudio main_tasks_InputAudio)
  have nt: "TtsStartTask \<notin> set (main_tasks ?s2)"
    using i mt by (simp add: abort_inv_def)
  have "returns_with (abort_inv P x) (run_main_tasks env (main_tasks ?s2) (?s2\<lparr>main_tasks := []\<rparr>))"
    using rw_run_main_tasks[OF pf nt abort_inv_main_tasks_reset[OF i2]] .
  with False i2 show ?thesis
    by (simp add: MainLoop_def Let_def rw_Some)
qed

lemma abort_inv_invoke:
  "abort_inv P x s \<Longrightarrow> abort_inv P x (foldl (\<lambda>s' command. emit (ThingInvoke command) s') s cs)"
  by (induction cs arbitrary: s) simp_all

lemma abort_inv_OnIncomingJson:
  "\<not> tts_start_event (IncomingJson m) \<Longrightarrow> abort_inv P x s \<Longrightarrow> abort_inv P x (OnIncomingJson m s)"
  by (cases m) (auto simp: abort_inv_Schedule abort_inv_invoke split: option.splits)

lemma rw_OnAudioChannelOpened:
  "abort_inv P x s \<Longrightarrow> returns_with (abort_inv P x) (OnAudioChannelOpened env s)"
  unfolding OnAudioChannelOpened_def Let_def
  by (intro rw_proto) (simp_all add: abort_inv_SetDecodeSampleRate)

lemma rw_app_step:
  assumes pf: "prompts_framed env" and ne: "\<not> tts_start_event e" and i: "abort_inv P x s"
  shows "returns_with (abort_inv P x) (app_step env e s)"
proof (cases e)
  case (IncomingJson m)
  with ne i show ?thesis by (simp add: rw_Some abort_inv_OnIncomingJson)
next
  case MainLoopTurn
  with rw_MainLoop[OF pf i] show ?thesis by simp
next
  case (NetworkError message)
  with rw_Alert[OF pf i] show ?thesis by (simp add: OnNetworkError_def)
next
  case AudioChannelOpened
  with rw_OnAudioChannelOpened[OF i] show ?thesis by simp
next
  case WorkerTurn
  with abort_inv_worker_step[OF i] show ?thesis by (simp add: rw_Some)
qed (use i in \<open>simp_all add: rw_Some abort_inv_Schedule abort_inv_background_Schedule
      ToggleChatState_def StartListening_def StopListening_def OnIncomingAudio_def
      OnAudioChannelClosed_def\<close>)

lemma rw_app_run:
  assumes pf: "prompts_framed env"
  shows "\<forall>e\<in>set evs. \<not> tts_start_event e \<Longrightarrow> abort_inv P x s \<Longrightarrow>
           returns_with (abort_inv P x) (app_run env evs s)"
proof (induction evs arbitrary: s)
  case Nil
  then show ?case by (simp add: rw_Some)
next
  case (Cons e evs)
  from Cons.prems have ne: "\<not> tts_start_event e" and r: "\<forall>e\<in>set evs. \<not> tts_start_event e" by auto
  from rw_app_step[OF pf ne Cons.prems(2)] obtain s1 where
    s1: "app_step env e s = Some s1" and i1: "abort_inv P x s1"
    by (auto simp: returns_with_def)
  from Cons.IH[OF r i1] s1 show ?case by simp
qed


lemmas run_defs = speaking_app_def in_state_def sample_app_def sample_env_def sample_world_def
  BackgroundTask_new_def MainLoop_def OutputAudio_def InputAudio_def background_Schedule_def
  BackgroundTask_Schedule_def bg_note_def worker_step_def worker_start_def worker_take_def
  worker_finish_def ToggleChatState_def Schedule_def AbortSpeaking_def proto_def emit_def
  codec_pcm_def Let_def OnIncomingAudio_def

text \<open>
  C1, as the claim states it, fails. The device speaks, one frame has been handed to the
  worker, and the worker has entered the decode closure and passed its check of the abort
  flag. Then the user toggles the chat state and the main loop aborts. At that point the
  flag is set and the codec has received nothing; the worker's next action, with no
  \<^verbatim>\<open>tts.start\<close> in between, writes the decoded block to the codec.
\<close>

theorem aborted_in_flight_counterexample:
  "map_option aborted
     (app_run sample_env
        [CodecOutputReady, MainLoopTurn, WorkerTurn, WorkerTurn, CallToggleChatState, MainLoopTurn]
        speaking_app) = Some True
   \<and> map_option codec_pcm
     (app_run sample_env
        [CodecOutputReady, MainLoopTurn, WorkerTurn, WorkerTurn, CallToggleChatState, MainLoopTurn]
        speaking_app) = Some []
   \<and> \<not> tts_start_event WorkerTurn
   \<and> map_option aborted
     (app_run sample_env
        [CodecOutputReady, MainLoopTurn, WorkerTurn, WorkerTurn, CallToggleChatState, MainLoopTurn,
         WorkerTurn]
        speaking_app) = Some True
   \<and> map_option codec_pcm
     (app_run sample_env
        [CodecOutputReady, MainLoopTurn, WorkerTurn, WorkerTurn, CallToggleChatState, MainLoopTurn,
         WorkerTurn]
        speaking_app) = Some [[1, 2]]"
  by (simp add: run_defs)


text \<open>
  C1, amended. From the moment \<^verbatim>\<open>AbortSpeaking\<close> has set the flag, through every sequence
  of events that does not bring a \<^verbatim>\<open>tts.start\<close> message (on an application whose
  transport exists, whose executor's counter is right, whose embedded prompts are framed
  and on whose main loop no closure of an earlier \<^verbatim>\<open>tts.start\<close> is still waiting): every
  event returns, the flag stays set, and the codec receives no PCM, except at most the
  one block of a decode closure that had passed its check before the flag was set. A
  decode closure that makes its check while the flag is set drops its frame: it neither
  decodes nor writes.
\<close>

theorem aborted_drops_all_but_in_flight:
  assumes "prompts_framed env" and "protocol_ready s" and "executor_ok (background_task s)"
    and "TtsStartTask \<notin> set (main_tasks s)" and "\<forall>e\<in>set evs. \<not> tts_start_event e"
  shows "\<exists>s1 s'. AbortSpeaking reason s = Some s1 \<and> aborted s1
           \<and> app_run env evs s1 = Some s' \<and> aborted s'
           \<and> (codec_pcm s' = codec_pcm s
              \<or> (decode_in_flight s \<and> (\<exists>b. codec_pcm s' = codec_pcm s @ [b])))
           \<and> (\<forall>frame t. aborted t \<longrightarrow>
                 \<not> closure_enters (DecodeClosure frame) t
                 \<and> run_background_closure env (DecodeClosure frame) t = t)"
proof -
  let ?s1 = "emit (ProtoSendAbortSpeaking reason)
               ((emit (EspLog LOGI ''Abort speaking'' []) s)\<lparr>aborted := True\<rparr>)"
  have a: "AbortSpeaking reason s = Some ?s1"
    using assms(2) by (simp add: AbortSpeaking_def proto_def Let_def emit_def)
  have i1: "abort_inv (codec_pcm s) (decode_in_flight s) ?s1"
    using assms(2,3,4)
    by (simp add: abort_inv_def emit_def codec_pcm_def decode_in_flight_def)
  from rw_app_run[OF assms(1,5) i1] obtain s' where
    r: "app_run env evs ?s1 = Some s'" and i': "abort_inv (codec_pcm s) (decode_in_flight s) s'"
    by (auto simp: returns_with_def)
  have ab1: "aborted ?s1" by (simp add: emit_def)
  have ab': "aborted s'" using i' by (simp add: abort_inv_def)
  have pc: "codec_pcm s' = codec_pcm s
              \<or> (decode_in_flight s \<and> (\<exists>b. codec_pcm s' = codec_pcm s @ [b]))"
    using i' by (auto simp: abort_inv_def)
  have cl: "\<forall>frame t. aborted t \<longrightarrow>
                 \<not> closure_enters (DecodeClosure frame) t
                 \<and> run_background_closure env (DecodeClosure frame) t = t"
    by (simp add: run_background_closure_def)
  from a ab1 r ab' pc cl show ?thesis by blast
qed

theorem aborted_drops_all_but_in_flight_witness:
  "prompts_framed sample_env \<and> protocol_ready speaking_app
   \<and> executor_ok (background_task speaking_app)
   \<and> TtsStartTask \<notin> set (main_tasks speaking_app)
   \<and> \<not> list_ex tts_start_event
           [CodecOutputReady, MainLoopTurn, WorkerTurn, WorkerTurn, IncomingAudio [5, 6],
            CodecOutputReady, MainLoopTurn, WorkerTurn, WorkerTurn]
   \<and> \<not> decode_in_flight speaking_app
   \<and> map_option codec_pcm
        (Option.bind (AbortSpeaking kAbortReasonWakeWordDetected speaking_app)
           (app_run sample_env
              [CodecOutputReady, MainLoopTurn, WorkerTurn, WorkerTurn, IncomingAudio [5, 6],
               CodecOutputReady, MainLoopTurn, WorkerTurn, WorkerTurn]))
       = Some (codec_pcm speaking_app)
   \<and> map_option audio_decode_queue
        (Option.bind (AbortSpeaking kAbortReasonWakeWordDetected speaking_app)
           (app_run sample_env
              [CodecOutputReady, MainLoopTurn, WorkerTurn, WorkerTurn, IncomingAudio [5, 6],
               CodecOutputReady, MainLoopTurn, WorkerTurn, WorkerTurn]))
       = Some [[5, 6]]"
proof -
  have h1: "prompts_framed sample_env"
    unfolding prompts_framed_def
    by (intro conjI exI[of _ "[]"]) (simp_all add: p3_framed_def p3_buffer_def sample_env_def)
  have h2: "protocol_ready speaking_app" by (simp add: run_defs)
  have h3: "executor_ok (background_task speaking_app)"
    by (simp add: run_defs executor_ok_def outstanding_def)
  have h4: "TtsStartTask \<notin> set (main_tasks speaking_app)" by (simp add: run_defs)
  have h5: "\<forall>e\<in>set [CodecOutputReady, MainLoopTurn, WorkerTurn, WorkerTurn, IncomingAudio [5, 6],
                 CodecOutputReady, MainLoopTurn, WorkerTurn, WorkerTurn]. \<not> tts_start_event e"
    by simp
  have h6: "\<not> decode_in_flight speaking_app" by (simp add: run_defs decode_in_flight_def)
  from aborted_drops_all_but_in_flight[OF h1 h2 h3 h4 h5, of kAbortReasonWakeWordDetected]
  obtain s1 s' where
    r: "AbortSpeaking kAbortReasonWakeWordDetected speaking_app = Some s1"
       "app_run sample_env
              [CodecOutputReady, MainLoopTurn, WorkerTurn, WorkerTurn, IncomingAudio [5, 6],
               CodecOutputReady, MainLoopTurn, WorkerTurn, WorkerTurn] s1 = Some s'"
       "codec_pcm s' = codec_pcm speaking_app
          \<or> (decode_in_flight speaking_app \<and> (\<exists>b. codec_pcm s' = codec_pcm speaking_app @ [b]))"
    by blast
  from r(3) h6 have pc: "codec_pcm s' = codec_pcm speaking_app" by blast
  have q: "map_option audio_decode_queue
        (Option.bind (AbortSpeaking kAbortReasonWakeWordDetected speaking_app)
           (app_run sample_env
              [CodecOutputReady, MainLoopTurn, WorkerTurn, WorkerTurn, IncomingAudio [5, 6],
               CodecOutputReady, MainLoopTurn, WorkerTurn, WorkerTurn]))
       = Some [[5, 6]]"
    by (simp add: run_defs)
  have h5': "\<not> list_ex tts_start_event
           [CodecOutputReady, MainLoopTurn, WorkerTurn, WorkerTurn, IncomingAudio [5, 6],
            CodecOutputReady, MainLoopTurn, WorkerTurn, WorkerTurn]"
    by simp
  from h1 h2 h3 h4 h5' h6 r(1,2) pc q show ?thesis by simp
qed

end
